theory Spec2Isabelle
  imports Complex_Main "HOL-Library.Sublist"
begin

section \<open>Conventions\<close>

text \<open>
  A Python \<open>str\<close> is modelled as a \<open>string\<close> whose characters are code points below 256.
  The Chinese message literals of the source lie outside that range; they are written as the
  bytes of their UTF-8 encoding and are only ever compared for equality.

  Everything the program learns from the browser, the mail relay, the clock or a worker thread
  is an observation supplied to the model as data. A call that may raise is observed as
  \<open>Ok v\<close> or as \<open>Exc msg\<close>, where \<open>msg\<close> is \<open>str(e)\<close> of the exception.
\<close>

datatype 'a io = Ok 'a | Exc string

section \<open>core/register\_service.py\<close>

subsection \<open>Data model\<close>

datatype RegisterStatus = PENDING | RUNNING | SUCCESS | FAILED

text \<open>The credential record written by \<open>_save_config\<close>.\<close>

record account_config =
  cfg_id :: string
  csesidx :: string
  config_id :: string
  secure_c_ses :: string
  host_c_oses :: string
  expires_at :: "string option"

text \<open>
  The dictionary \<open>{"email": .., "success": .., "config": .., "error": ..}\<close> that one
  registration attempt returns.
\<close>

record attempt_result =
  email :: "string option"
  success :: bool
  config :: "account_config option"
  error :: "string option"

text \<open>The dataclass \<open>RegisterTask\<close>; \<open>created_at\<close> and \<open>finished_at\<close> are clock readings.\<close>

record RegisterTask =
  task_id :: string
  count :: int
  status :: RegisterStatus
  progress :: int
  success_count :: int
  fail_count :: int
  created_at :: real
  finished_at :: "real option"
  results :: "attempt_result option list"
  task_error :: "string option"

text \<open>
  \<open>RegisterTask(id=.., count=..)\<close> with the dataclass defaults. An entry of \<open>results\<close> is
  \<open>None\<close> when the appended object was Python's \<open>None\<close>.
\<close>

definition new_task :: "string \<Rightarrow> int \<Rightarrow> real \<Rightarrow> RegisterTask" where
  "new_task tid n now =
     \<lparr>task_id = tid, count = n, status = PENDING, progress = 0, success_count = 0,
      fail_count = 0, created_at = now, finished_at = None, results = [], task_error = None\<rparr>"

text \<open>
  The part of \<open>RegisterService\<close> that the task bookkeeping uses. \<open>tasks\<close> is the dictionary
  \<open>_tasks\<close>; a task object is shared between the dictionary and the coroutine that runs it, so
  the dictionary doubles as the store of task objects, addressed by task id.
\<close>

record RegisterService =
  tasks :: "string \<rightharpoonup> RegisterTask"
  current_task_id :: "string option"
  specified_domain :: "string option"

definition init_service :: RegisterService where
  "init_service = \<lparr>tasks = Map.empty, current_task_id = None, specified_domain = None\<rparr>"

subsection \<open>Exceptions\<close>

text \<open>
  \<open>TimeoutException m\<close> is an instance of the class declared in this module, with \<open>str(e) = m\<close>;
  the class body is \<open>pass\<close>, so an instance is always true. \<open>Exception m b\<close> stands for an
  instance of any other subclass of \<open>Exception\<close>, with \<open>str(e) = m\<close> and truth value
  \<open>bool(e) = b\<close> (false only for a class that defines \<open>__bool__\<close> or \<open>__len__\<close> so).
\<close>

datatype exn = TimeoutException string | Exception string bool

fun exn_truthy :: "exn \<Rightarrow> bool" where
  "exn_truthy (TimeoutException m) = True"
| "exn_truthy (Exception m b) = b"

text \<open>Decimal rendering of a number inside an f-string.\<close>

fun digit_char :: "nat \<Rightarrow> char" where
  "digit_char n = char_of (48 + n)"

fun str_nat :: "nat \<Rightarrow> string" where
  "str_nat n = (if n < 10 then [digit_char n] else str_nat (n div 10) @ [digit_char (n mod 10)])"

declare str_nat.simps [simp del]

subsection \<open>\<open>run_with_timeout\<close>\<close>

text \<open>
  How the call \<open>func(*args, **kwargs)\<close> ends inside the worker thread: it returns a value, it
  raises an \<open>Exception\<close>, or it raises something that is no \<open>Exception\<close> (\<open>SystemExit\<close> and
  the like, \<open>Exits\<close>).
\<close>

datatype 'a func_outcome = Returns 'a | Throws exn | Exits

text \<open>
  The worker thread: \<open>running_time\<close> is the time in seconds after which \<open>func\<close> ends, \<open>None\<close>
  when it never ends; \<open>outcome\<close> is how it ends.
\<close>

record 'a worker =
  running_time :: "real option"
  outcome :: "'a func_outcome"

text \<open>
  The local function \<open>target\<close>: what it leaves in \<open>result[0]\<close> and \<open>exception[0]\<close>. Only
  \<open>except Exception\<close> stores the exception; anything else ends the thread with both slots
  still \<open>None\<close>.
\<close>

definition target :: "'a func_outcome \<Rightarrow> 'a option \<times> exn option" where
  "target out =
     (case out of
        Returns v \<Rightarrow> (Some v, None)
      | Throws e \<Rightarrow> (None, Some e)
      | Exits \<Rightarrow> (None, None))"

text \<open>
  \<open>thread.is_alive()\<close> after \<open>thread.join(timeout=timeout_seconds)\<close>: the thread is alive when
  \<open>func\<close> has not ended within the deadline. The instant between the return of \<open>join\<close> and the
  call of \<open>is_alive\<close> is not modelled.
\<close>

definition is_alive :: "'a worker \<Rightarrow> nat \<Rightarrow> bool" where
  "is_alive w timeout_seconds =
     (case running_time w of
        None \<Rightarrow> True
      | Some d \<Rightarrow> real timeout_seconds < d)"

definition timeout_message :: "nat \<Rightarrow> string" where
  "timeout_message secs =
     [CHR 0xE6, CHR 0x93, CHR 0x8D, CHR 0xE4, CHR 0xBD, CHR 0x9C, CHR 0xE8, CHR 0xB6, CHR 0x85,
      CHR 0xE6, CHR 0x97, CHR 0xB6] @ '' (>'' @ str_nat secs @ ''s)''"

text \<open>
  The result is \<open>Inl e\<close> when the call raises \<open>e\<close> and \<open>Inr r\<close> when it returns the content
  \<open>r\<close> of \<open>result[0]\<close>, which is \<open>None\<close> if the worker never assigned it. The test
  \<open>if exception[0]:\<close> is a test of the truth value of the stored exception.
\<close>

definition run_with_timeout :: "'a worker \<Rightarrow> nat \<Rightarrow> exn + 'a option" where
  "run_with_timeout w timeout_seconds =
     (if is_alive w timeout_seconds
      then Inl (TimeoutException (timeout_message timeout_seconds))
      else
        (case target (outcome w) of
           (result, exception) \<Rightarrow>
             (case exception of
                None \<Rightarrow> Inr result
              | Some e \<Rightarrow> if exn_truthy e then Inl e else Inr result)))"

subsection \<open>\<open>RegisterService._register_one_sync\<close>\<close>

definition ACCOUNT_TIMEOUT :: nat where
  "ACCOUNT_TIMEOUT = 90"

definition account_timeout_error :: string where
  "account_timeout_error =
     [CHR 0xE8, CHR 0xB6, CHR 0x85, CHR 0xE6, CHR 0x97, CHR 0xB6] @ ''(>'' @ str_nat ACCOUNT_TIMEOUT @ ''s)''"

definition failure_record :: "string \<Rightarrow> attempt_result" where
  "failure_record msg = \<lparr>email = None, success = False, config = None, error = Some msg\<rparr>"

text \<open>
  The argument is the observed behaviour of the thread that runs
  \<open>_register_one_sync_inner\<close>. The function itself never raises an \<open>Exception\<close>.
\<close>

definition register_one_sync :: "attempt_result worker \<Rightarrow> attempt_result option" where
  "register_one_sync w =
     (case run_with_timeout w ACCOUNT_TIMEOUT of
        Inr r \<Rightarrow> r
      | Inl (TimeoutException m) \<Rightarrow> Some (failure_record account_timeout_error)
      | Inl (Exception m b) \<Rightarrow> Some (failure_record m))"

subsection \<open>\<open>RegisterService.start_register\<close>\<close>

definition already_running_message :: string where
  "already_running_message =
     [CHR 0xE5, CHR 0xB7, CHR 0xB2, CHR 0xE6, CHR 0x9C, CHR 0x89, CHR 0xE6, CHR 0xB3, CHR 0xA8,
      CHR 0xE5, CHR 0x86, CHR 0x8C, CHR 0xE4, CHR 0xBB, CHR 0xBB, CHR 0xE5, CHR 0x8A, CHR 0xA1,
      CHR 0xE5, CHR 0x9C, CHR 0xA8, CHR 0xE8, CHR 0xBF, CHR 0x90, CHR 0xE8, CHR 0xA1, CHR 0x8C,
      CHR 0xE4, CHR 0xB8, CHR 0xAD]"

datatype start_error = ValueError string

text \<open>
  The guard at the head of \<open>start_register\<close>: \<open>if self._current_task_id:\<close> is false for
  \<open>None\<close> and for the empty string; a task object is always truthy.
\<close>

definition start_blocked :: "RegisterService \<Rightarrow> bool" where
  "start_blocked s =
     (case current_task_id s of
        None \<Rightarrow> False
      | Some cur \<Rightarrow>
          if cur = [] then False
          else (case tasks s cur of
                  None \<Rightarrow> False
                | Some current_task \<Rightarrow> status current_task = RUNNING))"

text \<open>
  \<open>uuid\<close> is the value of \<open>str(uuid.uuid4())\<close> and \<open>now\<close> the clock reading taken by the
  dataclass default of \<open>created_at\<close>. The service state is returned in both cases; the coroutine
  scheduled by \<open>asyncio.create_task\<close> does not run before \<open>start_register\<close> returns.
\<close>

definition start_register ::
  "RegisterService \<Rightarrow> int \<Rightarrow> string option \<Rightarrow> string \<Rightarrow> real
     \<Rightarrow> RegisterService \<times> (start_error + RegisterTask)" where
  "start_register s n domain uuid now =
     (if start_blocked s then (s, Inl (ValueError already_running_message))
      else
        let task = new_task uuid n now
        in (s\<lparr>specified_domain := domain,
               tasks := (tasks s)(task_id task \<mapsto> task),
               current_task_id := Some (task_id task)\<rparr>,
            Inr task))"

subsection \<open>\<open>RegisterService._run_register_async\<close>\<close>

text \<open>
  An awaited call ends in one of three ways: it yields a value, it raises an \<open>Exception\<close>
  (\<open>Raises\<close>, with \<open>str(e)\<close>), or it raises something \<open>except Exception\<close> lets through, such
  as the cancellation of the coroutine (\<open>Aborts\<close>).
\<close>

datatype 'a awaited = Done 'a | Raises string | Aborts

text \<open>
  What happens in iteration \<open>i\<close> of the loop: \<open>attempt i\<close> is the outcome of
  \<open>await loop.run_in_executor(self._executor, self._register_one_sync)\<close> and \<open>pause i\<close> the
  outcome of \<open>await asyncio.sleep(random.randint(2, 5))\<close>.
\<close>

record batch_env =
  attempt :: "nat \<Rightarrow> attempt_result option awaited"
  pause :: "nat \<Rightarrow> unit awaited"

text \<open>How the \<open>try\<close> block is left.\<close>

datatype loop_exit = Finished | Caught string | Escaped

definition none_not_subscriptable :: string where
  "none_not_subscriptable = [CHR 0x27] @ ''NoneType'' @ [CHR 0x27] @ '' object is not subscriptable''"

text \<open>
  The body of \<open>for i in range(task.count)\<close>, over the indices still to be visited.
\<close>

fun run_attempts :: "batch_env \<Rightarrow> nat list \<Rightarrow> RegisterTask \<Rightarrow> RegisterTask \<times> loop_exit" where
  "run_attempts env [] task = (task, Finished)"
| "run_attempts env (i # rest) task =
     (let task1 = task\<lparr>progress := int i + 1\<rparr>
      in case attempt env i of
           Raises e \<Rightarrow> (task1, Caught e)
         | Aborts \<Rightarrow> (task1, Escaped)
         | Done result \<Rightarrow>
             (let task2 = task1\<lparr>results := results task1 @ [result]\<rparr>
              in case result of
                   None \<Rightarrow> (task2, Caught none_not_subscriptable)
                 | Some r \<Rightarrow>
                     (let task3 =
                        (if success r then task2\<lparr>success_count := success_count task2 + 1\<rparr>
                         else task2\<lparr>fail_count := fail_count task2 + 1\<rparr>)
                      in if int i < count task3 - 1
                         then (case pause env i of
                                 Done u \<Rightarrow> run_attempts env rest task3
                               | Raises e \<Rightarrow> (task3, Caught e)
                               | Aborts \<Rightarrow> (task3, Escaped))
                         else run_attempts env rest task3)))"

text \<open>\<open>range(n)\<close> for a Python integer \<open>n\<close>: empty when \<open>n\<close> is not positive.\<close>

definition py_range :: "int \<Rightarrow> nat list" where
  "py_range n = [0 ..< nat n]"

text \<open>
  The statements after the loop, the \<open>except Exception\<close> clause and the \<open>finally\<close> clause.
\<close>

definition settle :: "RegisterTask \<times> loop_exit \<Rightarrow> RegisterTask" where
  "settle p =
     (case p of
        (task, Finished) \<Rightarrow> task\<lparr>status := (if success_count task > 0 then SUCCESS else FAILED)\<rparr>
      | (task, Caught e) \<Rightarrow> task\<lparr>status := FAILED, task_error := Some e\<rparr>
      | (task, Escaped) \<Rightarrow> task)"

definition run_task :: "batch_env \<Rightarrow> RegisterTask \<Rightarrow> RegisterTask \<times> loop_exit" where
  "run_task env task = run_attempts env (py_range (count task)) (task\<lparr>status := RUNNING\<rparr>)"

text \<open>
  The whole coroutine, run without interleaving. \<open>now\<close> is the clock reading of the
  \<open>finally\<close> clause. The second component tells how the \<open>try\<close> block was left.
\<close>

definition run_register_async ::
  "RegisterService \<Rightarrow> RegisterTask \<Rightarrow> batch_env \<Rightarrow> real \<Rightarrow> RegisterService \<times> loop_exit" where
  "run_register_async s task env now =
     (let p = run_task env task;
          done_task = (settle p)\<lparr>finished_at := Some now\<rparr>
      in (s\<lparr>tasks := (tasks s)(task_id task \<mapsto> done_task), current_task_id := None\<rparr>, snd p))"

subsection \<open>\<open>RegisterService.get_task\<close> and \<open>get_current_task\<close>\<close>

definition get_task :: "RegisterService \<Rightarrow> string \<Rightarrow> RegisterTask option" where
  "get_task s tid = tasks s tid"

definition get_current_task :: "RegisterService \<Rightarrow> RegisterTask option" where
  "get_current_task s =
     (case current_task_id s of
        None \<Rightarrow> None
      | Some cur \<Rightarrow> if cur = [] then None else tasks s cur)"

section \<open>util/gemini\_auth\_utils.py\<close>

subsection \<open>String operations of Python\<close>

text \<open>\<open>str.lower()\<close> on code points below 256.\<close>

definition lower_char :: "char \<Rightarrow> char" where
  "lower_char c =
     (let n = (of_char c :: nat)
      in if (65 \<le> n \<and> n \<le> 90) \<or> (192 \<le> n \<and> n \<le> 222 \<and> n \<noteq> 215)
         then char_of (n + 32) else c)"

definition py_lower :: "string \<Rightarrow> string" where
  "py_lower s = map lower_char s"

text \<open>The substring test \<open>sub in s\<close>.\<close>

fun py_in :: "string \<Rightarrow> string \<Rightarrow> bool" where
  "py_in sub [] = (sub = [])"
| "py_in sub (c # cs) = (prefix sub (c # cs) \<or> py_in sub cs)"

subsection \<open>\<open>GeminiAuthHelper._recover_from_crash\<close>\<close>

text \<open>
  What the driver answers during one recovery: the two readings of
  \<open>driver.window_handles\<close>, the script that opens a tab, the switch to the new tab before and
  after the old tabs are closed, and the navigation to the target URL. Failures while closing
  the old tabs are swallowed by the source and are not observed.
\<close>

record recovery_obs =
  original_handles :: "string list io"
  open_tab :: "unit io"
  new_handles :: "string list io"
  switch_to_new :: "unit io"
  switch_back :: "unit io"
  navigate :: "unit io"

definition recover_from_crash :: "recovery_obs \<Rightarrow> bool" where
  "recover_from_crash r =
     (case original_handles r of
        Exc e \<Rightarrow> False
      | Ok originals \<Rightarrow>
     (case open_tab r of
        Exc e \<Rightarrow> False
      | Ok u \<Rightarrow>
     (case new_handles r of
        Exc e \<Rightarrow> False
      | Ok handles \<Rightarrow>
     (case find (\<lambda>h. h \<notin> set originals) handles of
        None \<Rightarrow> False
      | Some new_handle \<Rightarrow>
          if new_handle = [] then False
          else
     (case switch_to_new r of
        Exc e \<Rightarrow> False
      | Ok u \<Rightarrow>
     (case switch_back r of
        Exc e \<Rightarrow> False
      | Ok u \<Rightarrow>
     (case navigate r of
        Exc e \<Rightarrow> False
      | Ok u \<Rightarrow> True)))))))"

subsection \<open>\<open>GeminiAuthHelper.wait_for_workspace\<close>\<close>

text \<open>
  What the driver answers in one iteration of the polling loop: \<open>driver.page_source\<close>,
  \<open>driver.current_url\<close>, and the recovery that follows if a crash is detected.
\<close>

record poll_obs =
  page_source :: "string io"
  current_url :: "string io"
  recovery :: recovery_obs

definition is_crashed :: "string \<Rightarrow> bool" where
  "is_crashed src = (py_in ''crashed'' (py_lower src) \<or> py_in ''aw, snap'' (py_lower src))"

definition at_workspace :: "string \<Rightarrow> bool" where
  "at_workspace url = (py_in ''business.gemini.google'' url \<and> py_in ''/cid/'' url)"

definition crash_like_error :: "string \<Rightarrow> bool" where
  "crash_like_error msg =
     (py_in ''crash'' (py_lower msg) \<or> py_in ''tab'' (py_lower msg)
      \<or> py_in ''target window'' (py_lower msg))"

text \<open>
  The loop \<open>for _ in range(timeout)\<close> over the iterations still to come; \<open>obs k\<close> is what the
  driver answers in iteration \<open>k\<close>. The result pairs the returned boolean with the final
  value of the local variable \<open>crash_count\<close>.
\<close>

fun wait_loop :: "(nat \<Rightarrow> poll_obs) \<Rightarrow> int \<Rightarrow> nat list \<Rightarrow> nat \<Rightarrow> bool \<times> nat" where
  "wait_loop obs max_crash_retries [] crash_count = (False, crash_count)"
| "wait_loop obs max_crash_retries (k # ks) crash_count =
     (case page_source (obs k) of
        Exc msg \<Rightarrow>
          if crash_like_error msg
          then (if int (crash_count + 1) \<ge> max_crash_retries then (False, crash_count + 1)
                else if recover_from_crash (recovery (obs k))
                     then wait_loop obs max_crash_retries ks (crash_count + 1)
                     else (False, crash_count + 1))
          else wait_loop obs max_crash_retries ks crash_count
      | Ok src \<Rightarrow>
          if is_crashed src
          then (if int (crash_count + 1) \<ge> max_crash_retries then (False, crash_count + 1)
                else if recover_from_crash (recovery (obs k))
                     then wait_loop obs max_crash_retries ks (crash_count + 1)
                     else (False, crash_count + 1))
          else
            (case current_url (obs k) of
               Exc msg \<Rightarrow>
                 if crash_like_error msg
                 then (if int (crash_count + 1) \<ge> max_crash_retries then (False, crash_count + 1)
                       else if recover_from_crash (recovery (obs k))
                            then wait_loop obs max_crash_retries ks (crash_count + 1)
                            else (False, crash_count + 1))
                 else wait_loop obs max_crash_retries ks crash_count
             | Ok url \<Rightarrow>
                 if at_workspace url then (True, crash_count)
                 else wait_loop obs max_crash_retries ks crash_count))"

definition wait_for_workspace :: "(nat \<Rightarrow> poll_obs) \<Rightarrow> int \<Rightarrow> int \<Rightarrow> bool \<times> nat" where
  "wait_for_workspace obs timeout max_crash_retries =
     wait_loop obs max_crash_retries (py_range timeout) 0"

text \<open>
  Three kinds of iteration. A crash is detected when the page source signals it, or when
  reading the page source or the URL raises an error whose text is crash-like. The target is
  seen when the page source is intact and the URL is the workspace. Any other iteration is
  idle: the loop goes on with the counter unchanged.
\<close>

definition detected_crash :: "poll_obs \<Rightarrow> bool" where
  "detected_crash p =
     (case page_source p of
        Exc msg \<Rightarrow> crash_like_error msg
      | Ok src \<Rightarrow>
          if is_crashed src then True
          else (case current_url p of Exc msg \<Rightarrow> crash_like_error msg | Ok url \<Rightarrow> False))"

definition target_poll :: "poll_obs \<Rightarrow> bool" where
  "target_poll p =
     (case page_source p of
        Exc e \<Rightarrow> False
      | Ok src \<Rightarrow> \<not> is_crashed src \<and>
          (case current_url p of Ok url \<Rightarrow> at_workspace url | Exc e \<Rightarrow> False))"

definition idle_poll :: "poll_obs \<Rightarrow> bool" where
  "idle_poll p = (\<not> detected_crash p \<and> \<not> target_poll p)"

text \<open>The number of crashes detected in the iterations before iteration \<open>j\<close>.\<close>

definition crashes_before :: "(nat \<Rightarrow> poll_obs) \<Rightarrow> nat \<Rightarrow> nat" where
  "crashes_before obs j = length (filter (\<lambda>i. detected_crash (obs i)) [0 ..< j])"

subsection \<open>\<open>GeminiAuthHelper.extract_config_from_driver\<close>\<close>

text \<open>\<open>s.split(c)\<close> for a separator of one character: never an empty list.\<close>

fun split_char :: "char \<Rightarrow> string \<Rightarrow> string list" where
  "split_char c [] = [[]]"
| "split_char c (x # xs) =
     (if x = c then [] # split_char c xs
      else (case split_char c xs of
              [] \<Rightarrow> [[x]]
            | w # ws \<Rightarrow> (x # w) # ws))"

text \<open>
  The loop over \<open>enumerate(parts)\<close>: the first part equal to \<open>"cid"\<close> that has a successor
  yields \<open>parts[i + 1].split("?")[0]\<close>.
\<close>

fun find_config_id :: "string list \<Rightarrow> string option" where
  "find_config_id [] = None"
| "find_config_id [p] = None"
| "find_config_id (p # q # rest) =
     (if p = ''cid''
      then (case split_char (CHR ''?'') q of [] \<Rightarrow> Some [] | w # ws \<Rightarrow> Some w)
      else find_config_id (q # rest))"

text \<open>A cookie dictionary of the driver; a missing key is \<open>None\<close>.\<close>

record cookie =
  cookie_name :: "string option"
  cookie_value :: "string option"
  cookie_expiry :: "int option"

text \<open>The empty dictionary \<open>{}\<close> that \<open>cookie_dict.get(name, {})\<close> falls back to.\<close>

definition no_cookie :: cookie where
  "no_cookie = \<lparr>cookie_name = None, cookie_value = None, cookie_expiry = None\<rparr>"

text \<open>\<open>{c.get("name"): c for c in cookies}\<close>: a later cookie replaces an earlier one.\<close>

definition cookie_dict :: "cookie list \<Rightarrow> (string option \<rightharpoonup> cookie)" where
  "cookie_dict cookies = fold (\<lambda>c m. m(cookie_name c \<mapsto> c)) cookies Map.empty"

definition get_cookie :: "cookie list \<Rightarrow> string \<Rightarrow> cookie" where
  "get_cookie cookies name =
     (case cookie_dict cookies (Some name) of None \<Rightarrow> no_cookie | Some c \<Rightarrow> c)"

text \<open>Truth value of an optional string: \<open>None\<close> and \<open>""\<close> are false.\<close>

definition truthy :: "string option \<Rightarrow> bool" where
  "truthy v = (case v of None \<Rightarrow> False | Some s \<Rightarrow> s \<noteq> [])"

text \<open>One reading of \<open>driver.current_url\<close> and \<open>driver.get_cookies()\<close>.\<close>

record snapshot =
  snap_url :: string
  snap_cookies :: "cookie list"

definition ses_cookie :: "snapshot \<Rightarrow> cookie" where
  "ses_cookie snap = get_cookie (snap_cookies snap) ''__Secure-C_SES''"

definition host_cookie :: "snapshot \<Rightarrow> cookie" where
  "host_cookie snap = get_cookie (snap_cookies snap) ''__Host-C_OSES''"

text \<open>
  The body of the polling loop. Two library calls are parameters:
  \<^item> \<open>query_csesidx url\<close> is \<open>parse_qs(urlparse(url).query).get("csesidx", [None])[0]\<close>;
  \<^item> \<open>format_local t\<close> is \<open>datetime.fromtimestamp(t).strftime("%Y-%m-%d %H:%M:%S")\<close>, which
    depends on the local time zone and raises for a timestamp the platform cannot represent.
  The result is \<open>Ok None\<close> when a field is missing and the loop goes on.
\<close>

definition snapshot_config ::
  "(string \<Rightarrow> string option) \<Rightarrow> (int \<Rightarrow> string io) \<Rightarrow> string \<Rightarrow> snapshot
     \<Rightarrow> account_config option io" where
  "snapshot_config query_csesidx format_local address snap =
     (let csesidx_v = query_csesidx (snap_url snap);
          config_id_v = find_config_id (split_char (CHR ''/'') (snap_url snap));
          ses = ses_cookie snap;
          host = host_cookie snap
      in if truthy (cookie_value ses) \<and> truthy (cookie_value host) \<and> truthy csesidx_v
            \<and> truthy config_id_v
         then
           (case (case cookie_expiry ses of
                    None \<Rightarrow> Ok None
                  | Some expiry \<Rightarrow>
                      if expiry = 0 then Ok None
                      else (case format_local (expiry - 43200) of
                              Exc e \<Rightarrow> Exc e
                            | Ok stamp \<Rightarrow> Ok (Some stamp))) of
              Exc e \<Rightarrow> Exc e
            | Ok expires \<Rightarrow>
                Ok (Some \<lparr>cfg_id = address,
                          csesidx = the csesidx_v,
                          config_id = the config_id_v,
                          secure_c_ses = the (cookie_value ses),
                          host_c_oses = the (cookie_value host),
                          expires_at = expires\<rparr>))
         else Ok None)"

text \<open>
  The loop \<open>while time.time() - start < timeout\<close>: \<open>polls\<close> are the readings of the driver
  taken before the deadline, \<open>final\<close> is the reading taken for the log message
  afterwards. A reading that raises, or a formatting that raises, ends the call with that
  exception (\<open>Exc\<close>).
\<close>

fun extract_config_from_driver ::
  "(string \<Rightarrow> string option) \<Rightarrow> (int \<Rightarrow> string io) \<Rightarrow> string \<Rightarrow> snapshot io list
     \<Rightarrow> snapshot io \<Rightarrow> account_config option io" where
  "extract_config_from_driver query_csesidx format_local address [] final =
     (case final of Exc e \<Rightarrow> Exc e | Ok snap \<Rightarrow> Ok None)"
| "extract_config_from_driver query_csesidx format_local address (p # polls) final =
     (case p of
        Exc e \<Rightarrow> Exc e
      | Ok snap \<Rightarrow>
          (case snapshot_config query_csesidx format_local address snap of
             Exc e \<Rightarrow> Exc e
           | Ok (Some cfg) \<Rightarrow> Ok (Some cfg)
           | Ok None \<Rightarrow> extract_config_from_driver query_csesidx format_local address polls final))"

subsection \<open>\<open>GeminiAuthHelper.fill_verification_code\<close>\<close>

text \<open>
  White space in the sense of \<open>str.strip()\<close> and of \<open>\s\<close> in a pattern, for code points
  below 256.
\<close>

definition py_isspace :: "char \<Rightarrow> bool" where
  "py_isspace c =
     (let n = (of_char c :: nat)
      in (9 \<le> n \<and> n \<le> 13) \<or> (28 \<le> n \<and> n \<le> 32) \<or> n = 133 \<or> n = 160)"

definition py_strip :: "string \<Rightarrow> string" where
  "py_strip s = rev (dropWhile py_isspace (rev (dropWhile py_isspace s)))"

text \<open>\<open>v or ""\<close> for the result of \<open>get_attribute("value")\<close>.\<close>

definition or_empty :: "string option \<Rightarrow> string" where
  "or_empty v = (case v of None \<Rightarrow> [] | Some s \<Rightarrow> s)"

text \<open>
  The local function \<open>_poll_typed\<close>: \<open>reads\<close> are the joined values of the six boxes, one per
  turn of its loop until the two seconds are over (the empty string when reading raised).
\<close>

definition poll_typed :: "string list \<Rightarrow> string \<Rightarrow> bool" where
  "poll_typed reads expected = (expected \<in> set reads)"

text \<open>
  What the browser answers while the code is filled in.
  \<^item> Six boxes: \<open>find_pins\<close> is the number of elements \<open>find_elements\<close> returns;
    \<open>type_char a i\<close> is the call \<open>pins[i].send_keys(ch)\<close> in attempt \<open>a\<close>;
    \<open>first_poll a\<close> and \<open>second_poll a\<close> are the readings of the two calls of \<open>_poll_typed\<close>
    in attempt \<open>a\<close>. Clicking and clearing a box, and the fallback that sends the whole code to
    the first box, are guarded by \<open>except Exception: pass\<close> and are not observed.
  \<^item> Single box: \<open>wait_pin\<close> is \<open>wait.until(..)\<close> for the box, \<open>send_code\<close> is
    \<open>pin.send_keys(code)\<close>, \<open>single_reads\<close> are the results of \<open>pin.get_attribute("value")\<close>
    in the turns of the two-second loop, \<open>script_read\<close> is the reading after the scripted
    assignment (\<open>Exc\<close> when the script or the reading raised).
  \<^item> OTP container: \<open>wait_first\<close>, \<open>click_first\<close>, \<open>send_active\<close> are the three calls,
    \<open>find_pins_again\<close> the second \<open>find_elements\<close>, \<open>otp_poll\<close> the readings of
    \<open>_poll_typed\<close>.
  \<^item> \<open>last_send\<close> is the final \<open>driver.switch_to.active_element.send_keys(code)\<close>.
\<close>

record fill_obs =
  find_pins :: "nat io"
  type_char :: "nat \<Rightarrow> nat \<Rightarrow> unit io"
  first_poll :: "nat \<Rightarrow> string list"
  second_poll :: "nat \<Rightarrow> string list"
  wait_pin :: "unit io"
  send_code :: "unit io"
  single_reads :: "string option io list"
  script_read :: "string option io"
  wait_first :: "unit io"
  click_first :: "unit io"
  send_active :: "unit io"
  find_pins_again :: "nat io"
  otp_poll :: "string list"
  last_send :: "unit io"

text \<open>
  Each of the three \<open>try\<close> blocks either returns a boolean (\<open>Some b\<close>) or is left, by an
  exception or because its condition fails, for the next block (\<open>None\<close>).
\<close>

text \<open>The loop \<open>for i, ch in enumerate(code[:6])\<close>: the first \<open>send_keys\<close> that raises ends it.\<close>

definition typing_ok :: "fill_obs \<Rightarrow> nat \<Rightarrow> string \<Rightarrow> bool" where
  "typing_ok obs a pin_code =
     list_all (\<lambda>i. type_char obs a i = Ok ()) [0 ..< length (take 6 pin_code)]"

fun six_box_attempts :: "fill_obs \<Rightarrow> string \<Rightarrow> nat list \<Rightarrow> bool option" where
  "six_box_attempts obs pin_code [] = Some True"
| "six_box_attempts obs pin_code (a # rest) =
     (if \<not> typing_ok obs a pin_code then None
      else if poll_typed (first_poll obs a) pin_code then Some True
      else if poll_typed (second_poll obs a) pin_code then Some True
      else six_box_attempts obs pin_code rest)"

definition six_boxes :: "fill_obs \<Rightarrow> string \<Rightarrow> bool option" where
  "six_boxes obs pin_code =
     (case find_pins obs of
        Exc e \<Rightarrow> None
      | Ok n \<Rightarrow> if n \<ge> 6 then six_box_attempts obs pin_code [0, 1, 2] else None)"

fun single_read_loop :: "fill_obs \<Rightarrow> string \<Rightarrow> string option io list \<Rightarrow> bool option" where
  "single_read_loop obs pin_code [] =
     (case script_read obs of
        Exc e \<Rightarrow> Some True
      | Ok v \<Rightarrow> if py_strip (or_empty v) = pin_code then Some True else Some True)"
| "single_read_loop obs pin_code (r # rest) =
     (case r of
        Exc e \<Rightarrow> None
      | Ok v \<Rightarrow> if py_strip (or_empty v) = pin_code then Some True
                else single_read_loop obs pin_code rest)"

definition single_box :: "fill_obs \<Rightarrow> string \<Rightarrow> bool option" where
  "single_box obs pin_code =
     (case wait_pin obs of
        Exc e \<Rightarrow> None
      | Ok u \<Rightarrow>
          (case send_code obs of
             Exc e \<Rightarrow> None
           | Ok u \<Rightarrow> single_read_loop obs pin_code (single_reads obs)))"

definition otp_container :: "fill_obs \<Rightarrow> string \<Rightarrow> bool option" where
  "otp_container obs pin_code =
     (case wait_first obs of
        Exc e \<Rightarrow> None
      | Ok u \<Rightarrow>
     (case click_first obs of
        Exc e \<Rightarrow> None
      | Ok u \<Rightarrow>
     (case send_active obs of
        Exc e \<Rightarrow> None
      | Ok u \<Rightarrow>
     (case find_pins_again obs of
        Exc e \<Rightarrow> None
      | Ok n \<Rightarrow>
          if n \<ge> 6
          then (if poll_typed (otp_poll obs) pin_code then Some True else Some True)
          else Some True))))"

text \<open>
  The whole method. \<open>disable_resend_buttons\<close> catches every exception and does not influence
  the result.
\<close>

definition fill_verification_code :: "fill_obs \<Rightarrow> string \<Rightarrow> bool" where
  "fill_verification_code obs raw_code =
     (let pin_code = py_strip raw_code
      in if length pin_code \<noteq> 6 then False
         else
           (case six_boxes obs pin_code of
              Some b \<Rightarrow> b
            | None \<Rightarrow>
           (case single_box obs pin_code of
              Some b \<Rightarrow> b
            | None \<Rightarrow>
           (case otp_container obs pin_code of
              Some b \<Rightarrow> b
            | None \<Rightarrow>
           (case last_send obs of
              Ok u \<Rightarrow> True
            | Exc e \<Rightarrow> False)))))"

subsection \<open>\<open>GeminiAuthHelper._extract_code_from_html\<close>\<close>

text \<open>
  The document tree that \<open>BeautifulSoup(content, "html.parser")\<close> builds: a string with the
  class the library gave it, or an element with its tag name, the tokens of its \<open>class\<close>
  attribute (\<open>None\<close> when it has none) and its children. The parser itself is a library and is
  a parameter of the model.
\<close>

datatype string_class =
  NavigableString | CData | ProcessingInstruction | XMLProcessingInstruction | Comment
| Declaration | Doctype | Stylesheet | Script | TemplateString | RubyTextString
| RubyParenthesisString

datatype node = Text string_class string | Element string "string list option" "node list"

text \<open>
  The string classes that \<open>get_text\<close> collects when it is called on an element of a given
  name: the library's table of string containers, and \<open>(NavigableString, CData)\<close> for every
  other name and for the document itself.
\<close>

definition interesting_string_types :: "string \<Rightarrow> string_class list" where
  "interesting_string_types name =
     (if name = ''rt'' then [RubyTextString]
      else if name = ''rp'' then [RubyParenthesisString]
      else if name = ''style'' then [Stylesheet]
      else if name = ''script'' then [Script]
      else if name = ''template'' then [TemplateString]
      else [NavigableString, CData])"

text \<open>The strings below a node whose class is one of \<open>types\<close>, joined in document order.\<close>

fun all_strings :: "string_class list \<Rightarrow> node \<Rightarrow> string" where
  "all_strings types (Text cls s) = (if cls \<in> set types then s else [])"
| "all_strings types (Element name classes children) = concat (map (all_strings types) children)"

text \<open>
  \<open>el.get_text()\<close>: the strings below the element that are of a class interesting for it, so
  that the content of a \<open>style\<close> or \<open>script\<close> element and comments are left out of the text of
  an enclosing element. The method is only called on elements.
\<close>

fun get_text :: "node \<Rightarrow> string" where
  "get_text (Text cls s) = s"
| "get_text (Element name classes children) =
     concat (map (all_strings (interesting_string_types name)) children)"

text \<open>\<open>soup.get_text()\<close> on the document.\<close>

definition soup_get_text :: "node list \<Rightarrow> string" where
  "soup_get_text soup = concat (map (all_strings [NavigableString, CData]) soup)"

text \<open>The elements of a subtree in document order, as \<open>find_all\<close> visits them.\<close>

fun elements_of :: "node \<Rightarrow> node list" where
  "elements_of (Text cls s) = []"
| "elements_of (Element name classes children) =
     Element name classes children # concat (map elements_of children)"

definition all_elements :: "node list \<Rightarrow> node list" where
  "all_elements soup = concat (map elements_of soup)"

fun tag_name :: "node \<Rightarrow> string" where
  "tag_name (Text cls s) = []"
| "tag_name (Element name classes children) = name"

fun class_tokens :: "node \<Rightarrow> string list option" where
  "class_tokens (Text cls s) = None"
| "class_tokens (Element name classes children) = classes"

text \<open>\<open>" ".join(tokens)\<close>.\<close>

fun join_spaces :: "string list \<Rightarrow> string" where
  "join_spaces [] = []"
| "join_spaces [t] = t"
| "join_spaces (t # u # rest) = t @ '' '' @ join_spaces (u # rest)"

text \<open>
  The filter \<open>lambda x: x and class_pattern in str(x).lower()\<close>. The library applies it to
  each token of the \<open>class\<close> attribute and then to the tokens joined by spaces; an element
  without the attribute is offered \<open>None\<close>.
\<close>

definition class_filter :: "string \<Rightarrow> string \<Rightarrow> bool" where
  "class_filter class_pattern x = (x \<noteq> [] \<and> py_in class_pattern (py_lower x))"

definition class_matches :: "string \<Rightarrow> node \<Rightarrow> bool" where
  "class_matches class_pattern el =
     (case class_tokens el of
        None \<Rightarrow> False
      | Some tokens \<Rightarrow>
          list_ex (class_filter class_pattern) tokens
          \<or> class_filter class_pattern (join_spaces tokens))"

text \<open>
  The character classes \<open>[0-9]\<close>, \<open>[A-Z]\<close>, \<open>[a-z]\<close>, \<open>[A-Z0-9]\<close> and \<open>[A-Za-z0-9]\<close> of the
  patterns, by code point.
\<close>

definition is_digit :: "char \<Rightarrow> bool" where
  "is_digit c = (48 \<le> (of_char c :: nat) \<and> (of_char c :: nat) \<le> 57)"

definition is_upper :: "char \<Rightarrow> bool" where
  "is_upper c = (65 \<le> (of_char c :: nat) \<and> (of_char c :: nat) \<le> 90)"

definition is_lower :: "char \<Rightarrow> bool" where
  "is_lower c = (97 \<le> (of_char c :: nat) \<and> (of_char c :: nat) \<le> 122)"

definition is_upper_digit :: "char \<Rightarrow> bool" where
  "is_upper_digit c = (is_upper c \<or> is_digit c)"

definition is_alnum :: "char \<Rightarrow> bool" where
  "is_alnum c = (is_upper c \<or> is_lower c \<or> is_digit c)"

text \<open>
  \<open>\w\<close> in a pattern over \<open>str\<close>: the alphanumeric code points and the underscore; below 256
  these are the ASCII ones and the letters and numbers of Latin-1.
\<close>

definition is_word :: "char \<Rightarrow> bool" where
  "is_word c =
     (let n = (of_char c :: nat)
      in is_alnum c \<or> c = CHR ''_'' \<or> n = 170 \<or> n = 178 \<or> n = 179 \<or> n = 181 \<or> n = 185
         \<or> n = 186 \<or> (188 \<le> n \<and> n \<le> 190) \<or> (192 \<le> n \<and> n \<le> 214)
         \<or> (216 \<le> n \<and> n \<le> 246) \<or> (248 \<le> n \<and> n \<le> 255))"

text \<open>
  \<open>\b\<close>: the characters on the two sides of a position differ in being word characters; a
  side beyond the end of the text counts as no word character.
\<close>

definition word_at :: "char option \<Rightarrow> bool" where
  "word_at side = (case side of None \<Rightarrow> False | Some c \<Rightarrow> is_word c)"

definition boundary :: "char option \<Rightarrow> char option \<Rightarrow> bool" where
  "boundary left right = (word_at left \<noteq> word_at right)"

definition first_char :: "string \<Rightarrow> char option" where
  "first_char s = (case s of [] \<Rightarrow> None | c # cs \<Rightarrow> Some c)"

text \<open>
  \<open>re.match(r'^[A-Za-z0-9]{6}$', text)\<close>: \<open>$\<close> also matches before a newline that ends the
  text.
\<close>

definition match_six :: "string \<Rightarrow> bool" where
  "match_six s =
     (length (take 6 s) = 6 \<and> list_all is_alnum (take 6 s)
      \<and> (drop 6 s = [] \<or> drop 6 s = [CHR 0x0A]))"

text \<open>
  The patterns \<open>\b([0-9]{6})\b\<close>, \<open>\b([A-Z0-9]{6})\b\<close> and \<open>\b([A-Za-z0-9]{6})\b\<close> tried at
  one position: \<open>left\<close> is the character in front of the position, \<open>s\<close> the text from
  there on. \<open>re.search\<close> takes the leftmost position that matches and returns group 1.
\<close>

definition bare_at :: "(char \<Rightarrow> bool) \<Rightarrow> char option \<Rightarrow> string \<Rightarrow> bool" where
  "bare_at cls left s =
     (boundary left (first_char s)
      \<and> length (take 6 s) = 6 \<and> list_all cls (take 6 s)
      \<and> boundary (Some (last (take 6 s))) (first_char (drop 6 s)))"

fun search_bare :: "(char \<Rightarrow> bool) \<Rightarrow> char option \<Rightarrow> string \<Rightarrow> string option" where
  "search_bare cls left [] = None"
| "search_bare cls left (c # cs) =
     (if bare_at cls left (c # cs) then Some (take 6 (c # cs))
      else search_bare cls (Some c) cs)"

text \<open>
  The pattern \<open>(?:code|Code|CODE|verification)[:\s]+([A-Za-z0-9]{6})\b\<close> tried at one
  position. At most one of the four words is a prefix of a text, and a separator is never
  alphanumeric, so the only way to match is to take the word, then all separators that
  follow, then six alphanumeric characters.
\<close>

definition is_separator :: "char \<Rightarrow> bool" where
  "is_separator c = (c = CHR '':'' \<or> py_isspace c)"

definition keyword_at :: "string \<Rightarrow> string option" where
  "keyword_at s =
     (case find (\<lambda>w. prefix w s) [''code'', ''Code'', ''CODE'', ''verification''] of
        None \<Rightarrow> None
      | Some w \<Rightarrow>
          (let rest = drop (length w) s;
               tail = dropWhile is_separator rest
           in if takeWhile is_separator rest \<noteq> []
                 \<and> length (take 6 tail) = 6 \<and> list_all is_alnum (take 6 tail)
                 \<and> boundary (Some (last (take 6 tail))) (first_char (drop 6 tail))
              then Some (take 6 tail) else None))"

fun search_keyword :: "string \<Rightarrow> string option" where
  "search_keyword [] = None"
| "search_keyword (c # cs) =
     (case keyword_at (c # cs) of
        Some g \<Rightarrow> Some g
      | None \<Rightarrow> search_keyword cs)"

text \<open>\<open>for x in xs: r = f(x); if r: return r\<close>, with \<open>None\<close> when the loop ends.\<close>

fun first_some :: "('a \<Rightarrow> 'b option) \<Rightarrow> 'a list \<Rightarrow> 'b option" where
  "first_some f [] = None"
| "first_some f (x # xs) = (case f x of Some r \<Rightarrow> Some r | None \<Rightarrow> first_some f xs)"

text \<open>The inner loop of the first two methods: the first element whose trimmed text matches.\<close>

definition six_char_text :: "node \<Rightarrow> string option" where
  "six_char_text el =
     (let t = py_strip (get_text el) in if match_six t then Some t else None)"

definition class_patterns :: "string list" where
  "class_patterns = [''verification-code'', ''verification_code'', ''code'', ''otp'', ''pin'']"

definition emphasis_tags :: "string list" where
  "emphasis_tags = [''strong'', ''b'', ''h1'', ''h2'', ''h3'', ''span'', ''div'', ''p'', ''td'']"

definition by_class :: "node list \<Rightarrow> string option" where
  "by_class soup =
     first_some (\<lambda>class_pattern.
        first_some six_char_text (filter (class_matches class_pattern) (all_elements soup)))
       class_patterns"

definition by_tag :: "node list \<Rightarrow> string option" where
  "by_tag soup =
     first_some (\<lambda>tag.
        first_some six_char_text (filter (\<lambda>el. tag_name el = tag) (all_elements soup)))
       emphasis_tags"

definition by_pattern :: "string \<Rightarrow> string option" where
  "by_pattern plain_text =
     first_some (\<lambda>search. search plain_text)
       [search_keyword, search_bare is_digit None, search_bare is_upper_digit None,
        search_bare is_alnum None]"

text \<open>
  The method. \<open>parse content\<close> is \<open>BeautifulSoup(content, "html.parser")\<close>, \<open>Exc\<close> when the
  library raises; the soup object is always truthy, so \<open>plain_text\<close> is \<open>soup.get_text()\<close>.
\<close>

definition extract_code_from_html :: "(string \<Rightarrow> node list io) \<Rightarrow> string \<Rightarrow> string option io" where
  "extract_code_from_html parse content =
     (if content = [] then Ok None
      else
        (case parse content of
           Exc e \<Rightarrow> Exc e
         | Ok soup \<Rightarrow>
             (case by_class soup of
                Some found \<Rightarrow> Ok (Some found)
              | None \<Rightarrow>
                  (case by_tag soup of
                     Some found \<Rightarrow> Ok (Some found)
                   | None \<Rightarrow> Ok (by_pattern (soup_get_text soup))))))"

subsection \<open>\<open>GeminiAuthHelper.get_verification_code\<close>\<close>

text \<open>
  The payloads of the mail relay are taken to have the types the source expects: identifiers
  and bodies are strings or absent. A message of the per-mailbox feed:
\<close>

record message =
  msg_id :: "string option"
  msg_html_content :: "string option"
  msg_html :: "string option"
  msg_body :: "string option"
  msg_content :: "string option"
  msg_text :: "string option"

text \<open>
  The decoded answer of \<open>GET /api/emails\<close>: a dictionary, of which \<open>Feed_dict a b c\<close> keeps
  \<open>data.get("data", {}).get("emails", [])\<close>, \<open>data.get("emails", [])\<close> and
  \<open>data.get("messages", [])\<close>; a list; or something else.
\<close>

datatype feed_payload =
  Feed_dict "message list" "message list" "message list"
| Feed_list "message list"
| Feed_other

text \<open>
  An HTTP exchange inside a \<open>try\<close> block: \<open>Failed\<close> when the request or the decoding of the
  answer raised, else the status code and the decoded payload.
\<close>

datatype 'a response = Failed | Status nat 'a

text \<open>
  An entry of \<open>results\<close> in the answer of \<open>GET /admin/mails\<close>; \<open>ai_result\<close> is
  \<open>json.loads(mail.get("metadata", "{}")).get("ai_extract", {}).get("result")\<close>, \<open>Exc\<close> when
  that raised.
\<close>

record admin_mail =
  mail_address :: "string option"
  mail_source :: "string option"
  ai_result :: "string option io"

text \<open>What the relay answers in one turn of the polling loop.\<close>

record poll_round =
  feed_response :: "feed_payload response"
  admin_response :: "admin_mail list response"

text \<open>The list \<open>emails\<close> as the polling loop computes it: \<open>a or b or c\<close>.\<close>

fun poll_emails :: "feed_payload \<Rightarrow> message list" where
  "poll_emails (Feed_dict a b c) = (if a \<noteq> [] then a else if b \<noteq> [] then b else c)"
| "poll_emails (Feed_list l) = l"
| "poll_emails Feed_other = []"

text \<open>The list \<open>emails\<close> as the baseline capture computes it: \<open>a or b\<close>.\<close>

fun baseline_emails :: "feed_payload \<Rightarrow> message list" where
  "baseline_emails (Feed_dict a b c) = (if a \<noteq> [] then a else b)"
| "baseline_emails (Feed_list l) = l"
| "baseline_emails Feed_other = []"

text \<open>The first truthy body field, else the empty string.\<close>

definition message_content :: "message \<Rightarrow> string" where
  "message_content m =
     (case find truthy [msg_html_content m, msg_html m, msg_body m, msg_content m, msg_text m] of
        Some (Some s) \<Rightarrow> s
      | _ \<Rightarrow> [])"

text \<open>
  The first \<open>try\<close> block of a turn: it returns a code, or runs \<open>time.sleep(2); continue\<close>
  because the newest message is the baseline, or is left without a code.
\<close>

datatype feed_outcome = Found string | Baseline_again | No_code

definition feed_step ::
  "(string \<Rightarrow> node list io) \<Rightarrow> string option \<Rightarrow> feed_payload response \<Rightarrow> feed_outcome" where
  "feed_step parse old_email_id resp =
     (case resp of
        Failed \<Rightarrow> No_code
      | Status status_code payload \<Rightarrow>
          if status_code \<noteq> 200 then No_code
          else
            (case poll_emails payload of
               [] \<Rightarrow> No_code
             | latest_email # others \<Rightarrow>
                 if truthy old_email_id \<and> msg_id latest_email = old_email_id then Baseline_again
                 else
                   (case extract_code_from_html parse (message_content latest_email) of
                      Exc e \<Rightarrow> No_code
                    | Ok None \<Rightarrow> No_code
                    | Ok (Some found) \<Rightarrow> if found \<noteq> [] then Found found else No_code)))"

text \<open>The second \<open>try\<close> block of a turn: the administrative feed.\<close>

definition admin_code :: "string option \<Rightarrow> string \<Rightarrow> admin_mail \<Rightarrow> string option" where
  "admin_code google_mail address mail =
     (if mail_address mail = Some address \<and> mail_source mail = google_mail
      then (case ai_result mail of
              Exc e \<Rightarrow> None
            | Ok None \<Rightarrow> None
            | Ok (Some found) \<Rightarrow> if found \<noteq> [] then Some found else None)
      else None)"

definition admin_step ::
  "string option \<Rightarrow> string \<Rightarrow> admin_mail list response \<Rightarrow> string option" where
  "admin_step google_mail address resp =
     (case resp of
        Failed \<Rightarrow> None
      | Status status_code mails \<Rightarrow>
          if status_code \<noteq> 200 then None
          else first_some (admin_code google_mail address) mails)"

text \<open>
  The loop \<open>while time.time() - start < timeout\<close> over the turns that fit before the
  deadline; when they are used up the method returns \<open>None\<close>.
\<close>

fun poll_rounds ::
  "(string \<Rightarrow> node list io) \<Rightarrow> string option \<Rightarrow> string \<Rightarrow> string option \<Rightarrow> poll_round list
     \<Rightarrow> string option" where
  "poll_rounds parse google_mail address old_email_id [] = None"
| "poll_rounds parse google_mail address old_email_id (r # rounds) =
     (case feed_step parse old_email_id (feed_response r) of
        Found found \<Rightarrow> Some found
      | Baseline_again \<Rightarrow> poll_rounds parse google_mail address old_email_id rounds
      | No_code \<Rightarrow>
          (case admin_step google_mail address (admin_response r) of
             Some found \<Rightarrow> Some found
           | None \<Rightarrow> poll_rounds parse google_mail address old_email_id rounds))"

text \<open>The baseline capture, run when the caller passes no \<open>old_email_id\<close>.\<close>

definition capture_baseline :: "feed_payload response \<Rightarrow> string option" where
  "capture_baseline resp =
     (case resp of
        Failed \<Rightarrow> None
      | Status status_code payload \<Rightarrow>
          if status_code \<noteq> 200 then None
          else (case baseline_emails payload of
                  [] \<Rightarrow> None
                | newest # others \<Rightarrow> msg_id newest))"

text \<open>
  The method: \<open>google_mail\<close> is \<open>self.config.google_mail\<close>, \<open>baseline\<close> the answer to the
  request of the baseline capture, \<open>rounds\<close> the answers in the turns of the loop.
\<close>

definition get_verification_code ::
  "(string \<Rightarrow> node list io) \<Rightarrow> string option \<Rightarrow> string \<Rightarrow> string option
     \<Rightarrow> feed_payload response \<Rightarrow> poll_round list \<Rightarrow> string option" where
  "get_verification_code parse google_mail address old_email_id baseline rounds =
     poll_rounds parse google_mail address
       (if old_email_id = None then capture_baseline baseline else old_email_id) rounds"

text \<open>The identifier of the newest message that a turn's feed shows, if it shows one.\<close>

definition newest_id :: "poll_round \<Rightarrow> string option" where
  "newest_id r =
     (case feed_response r of
        Failed \<Rightarrow> None
      | Status status_code payload \<Rightarrow>
          if status_code \<noteq> 200 then None
          else (case poll_emails payload of [] \<Rightarrow> None | newest # others \<Rightarrow> msg_id newest))"

section \<open>Example states and observations\<close>

text \<open>Concrete inputs on which the theorems below are instantiated.\<close>

definition ok_result :: attempt_result where
  "ok_result = \<lparr>email = Some ''a@b.c'', success = True, config = None, error = None\<rparr>"

text \<open>
  Four workers: one that never ends, one that returns a result after 30 seconds, one that
  leaves the thread by \<open>SystemExit\<close> after 5 seconds, and one that raises an ordinary
  exception after 10 seconds.
\<close>

definition hung_worker :: "attempt_result worker" where
  "hung_worker = \<lparr>running_time = None, outcome = Exits\<rparr>"

definition quick_worker :: "attempt_result worker" where
  "quick_worker = \<lparr>running_time = Some 30, outcome = Returns ok_result\<rparr>"



definition demo_env :: batch_env where
  "demo_env =
     \<lparr>attempt = (\<lambda>i. if i = 0 then Done (register_one_sync hung_worker)
                      else Done (register_one_sync quick_worker)),
      pause = (\<lambda>i. Done ())\<rparr>"

definition all_failed_env :: batch_env where
  "all_failed_env = \<lparr>attempt = (\<lambda>i. Done (register_one_sync hung_worker)), pause = (\<lambda>i. Done ())\<rparr>"


definition pending_service :: RegisterService where
  "pending_service = fst (start_register init_service 2 None ''task-a'' 0)"

definition running_service :: RegisterService where
  "running_service =
     \<lparr>tasks = [''task-a'' \<mapsto> (new_task ''task-a'' 2 0)\<lparr>status := RUNNING, progress := 1\<rparr>],
      current_task_id = Some ''task-a'', specified_domain = None\<rparr>"

definition good_recovery :: recovery_obs where
  "good_recovery =
     \<lparr>original_handles = Ok [''tab-1''], open_tab = Ok (), new_handles = Ok [''tab-1'', ''tab-2''],
      switch_to_new = Ok (), switch_back = Ok (), navigate = Ok ()\<rparr>"

definition crash_page :: poll_obs where
  "crash_page =
     \<lparr>page_source = Ok ''<html><body>Aw, Snap! The page crashed.</body></html>'',
      current_url = Ok ''chrome-error://chromewebdata/'',
      recovery = good_recovery\<rparr>"

definition workspace_page :: poll_obs where
  "workspace_page =
     \<lparr>page_source = Ok ''<html><body>Welcome</body></html>'',
      current_url = Ok ''https://business.gemini.google/home/cid/abc123?csesidx=42'',
      recovery = good_recovery\<rparr>"

text \<open>A page that crashes on its first \<open>n\<close> polls and shows the workspace from then on.\<close>

definition crashes_then_workspace :: "nat \<Rightarrow> nat \<Rightarrow> poll_obs" where
  "crashes_then_workspace n k = (if k < n then crash_page else workspace_page)"

text \<open>
  A page that is still loading, a poll in which the driver reports a crashed tab, and a
  crashed page for which no new tab can be opened.
\<close>

definition idle_page :: poll_obs where
  "idle_page =
     \<lparr>page_source = Ok ''<html><body>Loading</body></html>'',
      current_url = Ok ''https://auth.business.gemini.google/signup'',
      recovery = good_recovery\<rparr>"

definition tab_error_poll :: poll_obs where
  "tab_error_poll =
     \<lparr>page_source = Exc ''Message: tab crashed'',
      current_url = Exc ''Message: tab crashed'',
      recovery = good_recovery\<rparr>"

definition stuck_crash_page :: poll_obs where
  "stuck_crash_page = crash_page\<lparr>recovery := good_recovery\<lparr>open_tab := Exc ''no such window''\<rparr>\<rparr>"

text \<open>
  Polls in which crashes alternate with idle pages: the first crash is reported by the
  driver, the later ones by the page content.
\<close>

definition mixed_polls :: "nat \<Rightarrow> poll_obs" where
  "mixed_polls k =
     (if k = 1 then tab_error_poll else if k = 3 \<or> k = 5 then crash_page else idle_page)"

definition stuck_polls :: "nat \<Rightarrow> poll_obs" where
  "stuck_polls k = (if k = 1 then stuck_crash_page else idle_page)"

text \<open>
  A formatter for the examples: \<open>"%Y-%m-%d %H:%M:%S"\<close> on a machine whose local time is UTC,
  for the years 1 to 9999 that \<open>datetime\<close> can represent.
\<close>

definition pad2 :: "int \<Rightarrow> string" where
  "pad2 n = [digit_char (nat n div 10), digit_char (nat n mod 10)]"

definition pad4 :: "int \<Rightarrow> string" where
  "pad4 n = [digit_char (nat n div 1000), digit_char (nat n div 100 mod 10),
             digit_char (nat n div 10 mod 10), digit_char (nat n mod 10)]"

definition utc_strftime :: "int \<Rightarrow> string io" where
  "utc_strftime t =
     (let days = t div 86400;
          secs = t mod 86400;
          z = days + 719468;
          era = z div 146097;
          doe = z mod 146097;
          yoe = (doe - doe div 1460 + doe div 36524 - doe div 146096) div 365;
          doy = doe - (365 * yoe + yoe div 4 - yoe div 100);
          mp = (5 * doy + 2) div 153;
          d = doy - (153 * mp + 2) div 5 + 1;
          m = (if mp < 10 then mp + 3 else mp - 9);
          y = yoe + era * 400 + (if m \<le> 2 then 1 else 0)
      in if y < 1 \<or> 9999 < y then Exc ''year out of range''
         else Ok (pad4 y @ ''-'' @ pad2 m @ ''-'' @ pad2 d @ '' '' @ pad2 (secs div 3600) @ '':''
                  @ pad2 (secs mod 3600 div 60) @ '':'' @ pad2 (secs mod 60)))"

text \<open>The query parser of the examples knows the one workspace URL they use.\<close>

definition demo_query :: "string \<Rightarrow> string option" where
  "demo_query url =
     (if url = ''https://business.gemini.google/home/cid/abc123?csesidx=42'' then Some ''42''
      else None)"

definition workspace_snapshot :: "int option \<Rightarrow> snapshot" where
  "workspace_snapshot expiry =
     \<lparr>snap_url = ''https://business.gemini.google/home/cid/abc123?csesidx=42'',
      snap_cookies =
        [\<lparr>cookie_name = Some ''__Secure-C_SES'', cookie_value = Some ''ses-secret'',
          cookie_expiry = expiry\<rparr>,
         \<lparr>cookie_name = Some ''__Host-C_OSES'', cookie_value = Some ''host-secret'',
          cookie_expiry = None\<rparr>]\<rparr>"

definition login_snapshot :: snapshot where
  "login_snapshot = \<lparr>snap_url = ''https://auth.example/login'', snap_cookies = []\<rparr>"

definition demo_config :: "string option \<Rightarrow> account_config" where
  "demo_config expires =
     \<lparr>cfg_id = ''a@b.c'', csesidx = ''42'', config_id = ''abc123'', secure_c_ses = ''ses-secret'',
      host_c_oses = ''host-secret'', expires_at = expires\<rparr>"

text \<open>A page on which nothing can be found and nothing has the focus.\<close>

definition dead_page :: fill_obs where
  "dead_page =
     \<lparr>find_pins = Ok 0, type_char = (\<lambda>a i. Exc ''stale element''),
      first_poll = (\<lambda>a. []), second_poll = (\<lambda>a. []),
      wait_pin = Exc ''timeout'', send_code = Exc ''stale element'', single_reads = [],
      script_read = Exc ''stale element'',
      wait_first = Exc ''timeout'', click_first = Exc ''stale element'',
      send_active = Exc ''no such window'', find_pins_again = Ok 0, otp_poll = [],
      last_send = Exc ''no such window''\<rparr>"

text \<open>A page with six boxes that accept the keys but never show a value.\<close>

definition unreadable_boxes :: fill_obs where
  "unreadable_boxes =
     \<lparr>find_pins = Ok 6, type_char = (\<lambda>a i. Ok ()),
      first_poll = (\<lambda>a. ['''', '''']), second_poll = (\<lambda>a. ['''']),
      wait_pin = Exc ''timeout'', send_code = Exc ''stale element'', single_reads = [],
      script_read = Exc ''stale element'',
      wait_first = Exc ''timeout'', click_first = Exc ''stale element'',
      send_active = Exc ''no such window'', find_pins_again = Ok 6, otp_poll = [],
      last_send = Exc ''no such window''\<rparr>"

text \<open>Three mail bodies and the trees the parser builds for them.\<close>

definition strong_body :: string where
  "strong_body = ''<p>Hello, your code: 123 </p><strong>AB12C9</strong><p>bye 2024</p>''"

definition strong_soup :: "node list" where
  "strong_soup =
     [Element ''p'' None [Text NavigableString ''Hello, your code: 123 ''],
      Element ''strong'' None [Text NavigableString ''AB12C9''],
      Element ''p'' None [Text NavigableString ''bye 2024'']]"

definition plain_body :: string where
  "plain_body = ''your code is 482913 valid 10 min''"

definition class_body :: string where
  "class_body = ''<div class=\"box otp-Code\"> 77aa99 </div><b>ignored</b>''"

definition class_soup :: "node list" where
  "class_soup =
     [Element ''div'' (Some [''box'', ''otp-Code'']) [Text NavigableString '' 77aa99 ''],
      Element ''b'' None [Text NavigableString ''ignored'']]"

definition demo_parse :: "string \<Rightarrow> node list io" where
  "demo_parse content =
     (if content = strong_body then Ok strong_soup
      else if content = plain_body then Ok [Text NavigableString plain_body]
      else if content = class_body then Ok class_soup
      else Exc ''unknown document'')"

text \<open>
  A mailbox whose newest message stays \<open>m1\<close>, with a code in its body and another in the
  administrative feed, and the turn in which the message \<open>m2\<close> arrives.
\<close>

definition mail_m1 :: message where
  "mail_m1 =
     \<lparr>msg_id = Some ''m1'', msg_html_content = Some class_body, msg_html = None,
      msg_body = None, msg_content = None, msg_text = None\<rparr>"

definition mail_m2 :: message where
  "mail_m2 =
     \<lparr>msg_id = Some ''m2'', msg_html_content = None, msg_html = None,
      msg_body = Some plain_body, msg_content = None, msg_text = None\<rparr>"

definition admin_entry :: admin_mail where
  "admin_entry =
     \<lparr>mail_address = Some ''a@b.c'', mail_source = Some ''noreply@example.com'',
      ai_result = Ok (Some ''222222'')\<rparr>"

definition stale_round :: poll_round where
  "stale_round =
     \<lparr>feed_response = Status 200 (Feed_dict [mail_m1] [] []),
      admin_response = Status 200 [admin_entry]\<rparr>"

definition fresh_round :: poll_round where
  "fresh_round =
     \<lparr>feed_response = Status 200 (Feed_list [mail_m2, mail_m1]),
      admin_response = Failed\<rparr>"

text \<open>
  An inbox that holds only the old message \<open>m1\<close>, listed by the administrative feed with the
  code that was extracted from it, and a turn in which the request to the inbox feed fails
  while the administrative feed answers as before.
\<close>

definition old_admin_entry :: admin_mail where
  "old_admin_entry =
     \<lparr>mail_address = Some ''a@b.c'', mail_source = Some ''noreply@example.com'',
      ai_result = Ok (Some ''77aa99'')\<rparr>"

definition unchanged_round :: poll_round where
  "unchanged_round =
     \<lparr>feed_response = Status 200 (Feed_dict [mail_m1] [] []),
      admin_response = Status 200 [old_admin_entry]\<rparr>"

definition feed_down_round :: poll_round where
  "feed_down_round =
     \<lparr>feed_response = Failed,
      admin_response = Status 200 [old_admin_entry]\<rparr>"

section \<open>Properties of the batch orchestrator\<close>



lemma register_one_sync_alive:
  "is_alive w ACCOUNT_TIMEOUT \<Longrightarrow> register_one_sync w = Some (failure_record account_timeout_error)"
  by (simp add: register_one_sync_def run_with_timeout_def)

lemma hung_worker_alive: "is_alive hung_worker ACCOUNT_TIMEOUT"
  by (simp add: is_alive_def hung_worker_def)

lemma quick_worker_result: "register_one_sync quick_worker = Some ok_result"
  by (simp add: register_one_sync_def run_with_timeout_def is_alive_def target_def
      quick_worker_def ACCOUNT_TIMEOUT_def)


lemma py_range_2: "py_range 2 = [0, 1]"
  by (simp add: py_range_def upt_rec)

lemma demo_start:
  "start_register init_service 2 None ''task-a'' 0 = (pending_service, Inr (new_task ''task-a'' 2 0))"
  by (simp add: pending_service_def start_register_def start_blocked_def init_service_def Let_def)

lemma demo_run_task:
  "run_task demo_env (new_task ''task-a'' 2 0) =
     ((new_task ''task-a'' 2 0)\<lparr>status := RUNNING, progress := 2, success_count := 1, fail_count := 1,
        results := [Some (failure_record account_timeout_error), Some ok_result]\<rparr>, Finished)"
  by (simp add: run_task_def py_range_2 demo_env_def new_task_def Let_def
      register_one_sync_alive [OF hung_worker_alive] quick_worker_result
      failure_record_def ok_result_def)

lemma demo_run:
  "snd (run_register_async pending_service (new_task ''task-a'' 2 0) demo_env 5) = Finished"
  by (simp add: run_register_async_def demo_run_task Let_def)

lemma run_attempts_step:
  assumes "run_attempts env (i # rest) task = (task', Finished)"
  shows "\<exists>r. attempt env i = Done (Some r) \<and>
           run_attempts env rest
             (if success r
              then task\<lparr>progress := int i + 1, results := results task @ [Some r],
                        success_count := success_count task + 1\<rparr>
              else task\<lparr>progress := int i + 1, results := results task @ [Some r],
                        fail_count := fail_count task + 1\<rparr>) = (task', Finished)"
proof (cases "attempt env i")
  case (Done result)
  show ?thesis
  proof (cases result)
    case None
    with Done assms show ?thesis by simp
  next
    case (Some r)
    with Done assms show ?thesis
      by (cases "success r"; cases "pause env i")
         (simp_all add: Let_def split: if_splits)
  qed
next
  case (Raises e)
  with assms show ?thesis by simp
next
  case Aborts
  with assms show ?thesis by simp
qed

lemma run_attempts_count:
  "run_attempts env idx task = (task', Finished) \<Longrightarrow> count task' = count task"
proof (induction idx arbitrary: task)
  case Nil
  then show ?case by simp
next
  case (Cons i rest)
  from run_attempts_step [OF Cons.prems] obtain r where
    "run_attempts env rest
       (if success r
        then task\<lparr>progress := int i + 1, results := results task @ [Some r],
                  success_count := success_count task + 1\<rparr>
        else task\<lparr>progress := int i + 1, results := results task @ [Some r],
                  fail_count := fail_count task + 1\<rparr>) = (task', Finished)"
    by blast
  from Cons.IH [OF this] show ?case by (simp split: if_splits)
qed

lemma run_attempts_sum:
  "run_attempts env idx task = (task', Finished) \<Longrightarrow>
     success_count task' + fail_count task' = success_count task + fail_count task + int (length idx)"
proof (induction idx arbitrary: task)
  case Nil
  then show ?case by simp
next
  case (Cons i rest)
  from run_attempts_step [OF Cons.prems] obtain r where
    "run_attempts env rest
       (if success r
        then task\<lparr>progress := int i + 1, results := results task @ [Some r],
                  success_count := success_count task + 1\<rparr>
        else task\<lparr>progress := int i + 1, results := results task @ [Some r],
                  fail_count := fail_count task + 1\<rparr>) = (task', Finished)"
    by blast
  from Cons.IH [OF this] show ?case by (simp split: if_splits)
qed

lemma run_attempts_success_mono:
  "run_attempts env idx task = (task', Finished) \<Longrightarrow> success_count task \<le> success_count task'"
proof (induction idx arbitrary: task)
  case Nil
  then show ?case by simp
next
  case (Cons i rest)
  from run_attempts_step [OF Cons.prems] obtain r where
    "run_attempts env rest
       (if success r
        then task\<lparr>progress := int i + 1, results := results task @ [Some r],
                  success_count := success_count task + 1\<rparr>
        else task\<lparr>progress := int i + 1, results := results task @ [Some r],
                  fail_count := fail_count task + 1\<rparr>) = (task', Finished)"
    by blast
  from Cons.IH [OF this] show ?case by (simp split: if_splits)
qed

lemma run_attempts_progress:
  "run_attempts env idx task = (task', Finished) \<Longrightarrow>
     progress task' = (if idx = [] then progress task else int (last idx) + 1)"
proof (induction idx arbitrary: task)
  case Nil
  then show ?case by simp
next
  case (Cons i rest)
  from run_attempts_step [OF Cons.prems] obtain r where
    "run_attempts env rest
       (if success r
        then task\<lparr>progress := int i + 1, results := results task @ [Some r],
                  success_count := success_count task + 1\<rparr>
        else task\<lparr>progress := int i + 1, results := results task @ [Some r],
                  fail_count := fail_count task + 1\<rparr>) = (task', Finished)"
    by blast
  from Cons.IH [OF this] show ?case by (simp split: if_splits)
qed

lemma last_py_range: "0 < n \<Longrightarrow> int (last (py_range n)) + 1 = n"
  by (cases "nat n") (auto simp: py_range_def)

lemma length_py_range: "0 \<le> n \<Longrightarrow> int (length (py_range n)) = n"
  by (simp add: py_range_def)

lemma run_attempts_outcomes:
  "run_attempts env idx task = (task', Finished) \<Longrightarrow>
     \<exists>rs. list_all2 (\<lambda>i r. attempt env i = Done (Some r)) idx rs \<and>
          results task' = results task @ map Some rs \<and>
          success_count task' = success_count task + int (length (filter success rs)) \<and>
          fail_count task' = fail_count task + int (length (filter (\<lambda>r. \<not> success r) rs))"
proof (induction idx arbitrary: task)
  case Nil
  then have "task' = task" by simp
  then have "list_all2 (\<lambda>i r. attempt env i = Done (Some r)) [] [] \<and>
          results task' = results task @ map Some [] \<and>
          success_count task' = success_count task + int (length (filter success [])) \<and>
          fail_count task' = fail_count task + int (length (filter (\<lambda>r. \<not> success r) []))"
    by simp
  then show ?case by (rule exI)
next
  case (Cons i rest)
  from run_attempts_step [OF Cons.prems] obtain r where
    r: "attempt env i = Done (Some r)" and
    run: "run_attempts env rest
       (if success r
        then task\<lparr>progress := int i + 1, results := results task @ [Some r],
                  success_count := success_count task + 1\<rparr>
        else task\<lparr>progress := int i + 1, results := results task @ [Some r],
                  fail_count := fail_count task + 1\<rparr>) = (task', Finished)"
    by (elim exE conjE)
  from Cons.IH [OF run] obtain rs where
    la: "list_all2 (\<lambda>i r. attempt env i = Done (Some r)) rest rs" and
    res: "results task' =
            results (if success r
              then task\<lparr>progress := int i + 1, results := results task @ [Some r],
                        success_count := success_count task + 1\<rparr>
              else task\<lparr>progress := int i + 1, results := results task @ [Some r],
                        fail_count := fail_count task + 1\<rparr>) @ map Some rs" and
    sc: "success_count task' =
            success_count (if success r
              then task\<lparr>progress := int i + 1, results := results task @ [Some r],
                        success_count := success_count task + 1\<rparr>
              else task\<lparr>progress := int i + 1, results := results task @ [Some r],
                        fail_count := fail_count task + 1\<rparr>) + int (length (filter success rs))" and
    fc: "fail_count task' =
            fail_count (if success r
              then task\<lparr>progress := int i + 1, results := results task @ [Some r],
                        success_count := success_count task + 1\<rparr>
              else task\<lparr>progress := int i + 1, results := results task @ [Some r],
                        fail_count := fail_count task + 1\<rparr>)
              + int (length (filter (\<lambda>r. \<not> success r) rs))"
    by (elim exE conjE)
  have 1: "list_all2 (\<lambda>i r. attempt env i = Done (Some r)) (i # rest) (r # rs)"
    using r la by simp
  have 2: "results task' = results task @ map Some (r # rs)"
    using res by (cases "success r") simp_all
  have 3: "success_count task' = success_count task + int (length (filter success (r # rs)))"
    using sc by (cases "success r") simp_all
  have 4: "fail_count task' =
             fail_count task + int (length (filter (\<lambda>r. \<not> success r) (r # rs)))"
    using fc by (cases "success r") simp_all
  have "list_all2 (\<lambda>i r. attempt env i = Done (Some r)) (i # rest) (r # rs) \<and>
          results task' = results task @ map Some (r # rs) \<and>
          success_count task' = success_count task + int (length (filter success (r # rs))) \<and>
          fail_count task' =
            fail_count task + int (length (filter (\<lambda>r. \<not> success r) (r # rs)))"
    by (rule conjI [OF 1 conjI [OF 2 conjI [OF 3 4]]])
  then show ?case by (rule exI)
qed

lemma some_success_iff: "0 < int (length (filter P xs)) \<longleftrightarrow> (\<exists>x \<in> set xs. P x)"
  by (simp add: filter_empty_conv)

text \<open>
  Claim C1. For every requested count \<open>n \<ge> 0\<close>: when the task created by \<open>start_register\<close> is
  run and the \<open>try\<close> block is left normally (no orchestration-level error), each of the \<open>n\<close>
  attempts has returned a record \<open>rs ! i\<close>, the finished task lists these records in order,
  \<open>success_count\<close> is the number of records with \<open>success\<close> true and \<open>fail_count\<close> the number of
  the others, and \<open>progress = success_count + fail_count = count = n\<close>. The status is
  \<open>SUCCESS\<close> exactly when \<open>success_count > 0\<close>, that is when some attempt succeeded, and
  \<open>FAILED\<close> otherwise; so a count of 0 and a batch whose attempts all failed both end as
  \<open>FAILED\<close>.
\<close>

theorem batch_counts_and_status:
  assumes "0 \<le> n"
    and "start_register s n domain uuid t0 = (s1, Inr task)"
    and "run_register_async s1 task env now = (s2, Finished)"
  shows "\<exists>final rs. get_task s2 uuid = Some final \<and>
           length rs = nat n \<and>
           (\<forall>i < nat n. attempt env i = Done (Some (rs ! i))) \<and>
           results final = map Some rs \<and>
           success_count final = int (length (filter success rs)) \<and>
           fail_count final = int (length (filter (\<lambda>r. \<not> success r) rs)) \<and>
           count final = n \<and>
           progress final = n \<and>
           success_count final + fail_count final = n \<and>
           (status final = SUCCESS \<longleftrightarrow> success_count final > 0) \<and>
           (status final = SUCCESS \<longleftrightarrow> (\<exists>r \<in> set rs. success r)) \<and>
           (status final = FAILED \<longleftrightarrow> success_count final = 0) \<and>
           (n = 0 \<longrightarrow> status final = FAILED) \<and>
           ((\<forall>r \<in> set rs. \<not> success r) \<longrightarrow> status final = FAILED)"
proof -
  from assms(2) have task: "task = new_task uuid n t0"
    by (auto simp: start_register_def Let_def split: if_splits)
  obtain t' where run: "run_task env task = (t', Finished)"
    using assms(3) by (cases "run_task env task") (auto simp: run_register_async_def Let_def)
  define final where "final = (settle (t', Finished))\<lparr>finished_at := Some now\<rparr>"
  have fin: "get_task s2 uuid = Some final"
    using assms(3) run task
    by (auto simp: run_register_async_def Let_def get_task_def new_task_def final_def)
  note run' = run [unfolded run_task_def]
  from run_attempts_outcomes [OF run'] obtain rs where
    la: "list_all2 (\<lambda>i r. attempt env i = Done (Some r)) (py_range (count task)) rs" and
    res: "results t' = results (task\<lparr>status := RUNNING\<rparr>) @ map Some rs" and
    sc: "success_count t' =
           success_count (task\<lparr>status := RUNNING\<rparr>) + int (length (filter success rs))" and
    fc: "fail_count t' =
           fail_count (task\<lparr>status := RUNNING\<rparr>) + int (length (filter (\<lambda>r. \<not> success r) rs))"
    by (elim exE conjE)
  have cnt_task: "count task = n"
    by (simp add: task new_task_def)
  have len: "length rs = nat n"
    using list_all2_lengthD [OF la] by (simp add: py_range_def cnt_task)
  have nth: "\<forall>i < nat n. attempt env i = Done (Some (rs ! i))"
  proof (intro allI impI)
    fix i assume i: "i < nat n"
    then have "i < length (py_range (count task))"
      by (simp add: py_range_def cnt_task)
    from list_all2_nthD [OF la this] i show "attempt env i = Done (Some (rs ! i))"
      by (simp add: py_range_def cnt_task)
  qed
  have res': "results final = map Some rs"
    using res by (simp add: final_def settle_def task new_task_def)
  have sc0: "success_count t' = int (length (filter success rs))"
    using sc by (simp add: task new_task_def)
  have fc0: "fail_count t' = int (length (filter (\<lambda>r. \<not> success r) rs))"
    using fc by (simp add: task new_task_def)
  have sc': "success_count final = int (length (filter success rs))"
    using sc0 by (simp add: final_def settle_def)
  have fc': "fail_count final = int (length (filter (\<lambda>r. \<not> success r) rs))"
    using fc0 by (simp add: final_def settle_def)
  have cnt: "count final = n"
    using run_attempts_count [OF run'] by (simp add: final_def settle_def cnt_task)
  have sum: "success_count final + fail_count final = n"
  proof -
    have "length (filter success rs) + length (filter (\<lambda>r. \<not> success r) rs) = length rs"
      by (rule sum_length_filter_compl)
    then have "int (length (filter success rs)) + int (length (filter (\<lambda>r. \<not> success r) rs))
                 = int (length rs)"
      by linarith
    with len assms(1) show ?thesis
      by (simp add: sc' fc')
  qed
  have prog: "progress final = n"
  proof (cases "n = 0")
    case True
    then show ?thesis
      using run_attempts_progress [OF run']
      by (simp add: task new_task_def py_range_def final_def settle_def)
  next
    case False
    with assms(1) have "0 < n" by simp
    moreover from this have "py_range n \<noteq> []" by (simp add: py_range_def)
    ultimately show ?thesis
      using run_attempts_progress [OF run']
      by (simp add: task new_task_def last_py_range final_def settle_def)
  qed
  have st: "status final = (if success_count final > 0 then SUCCESS else FAILED)"
    by (simp add: final_def settle_def)
  have nonneg: "0 \<le> success_count final"
    by (simp add: sc')
  have s1: "status final = SUCCESS \<longleftrightarrow> success_count final > 0"
    by (simp add: st)
  have s2: "status final = SUCCESS \<longleftrightarrow> (\<exists>r \<in> set rs. success r)"
    unfolding s1 sc' by (rule some_success_iff)
  have s3: "status final = FAILED \<longleftrightarrow> success_count final = 0"
    using nonneg by (simp add: st)
  have s4: "n = 0 \<longrightarrow> status final = FAILED"
    using len by (auto simp: s3 sc')
  have s5: "(\<forall>r \<in> set rs. \<not> success r) \<longrightarrow> status final = FAILED"
    by (simp add: s3 sc' filter_empty_conv)
  have "get_task s2 uuid = Some final \<and>
           length rs = nat n \<and>
           (\<forall>i < nat n. attempt env i = Done (Some (rs ! i))) \<and>
           results final = map Some rs \<and>
           success_count final = int (length (filter success rs)) \<and>
           fail_count final = int (length (filter (\<lambda>r. \<not> success r) rs)) \<and>
           count final = n \<and>
           progress final = n \<and>
           success_count final + fail_count final = n \<and>
           (status final = SUCCESS \<longleftrightarrow> success_count final > 0) \<and>
           (status final = SUCCESS \<longleftrightarrow> (\<exists>r \<in> set rs. success r)) \<and>
           (status final = FAILED \<longleftrightarrow> success_count final = 0) \<and>
           (n = 0 \<longrightarrow> status final = FAILED) \<and>
           ((\<forall>r \<in> set rs. \<not> success r) \<longrightarrow> status final = FAILED)"
    by (rule conjI [OF fin conjI [OF len conjI [OF nth conjI [OF res' conjI [OF sc'
          conjI [OF fc' conjI [OF cnt conjI [OF prog conjI [OF sum conjI [OF s1
          conjI [OF s2 conjI [OF s3 conjI [OF s4 s5]]]]]]]]]]]]])
  then show ?thesis
    by - (rule exI [of _ final], rule exI [of _ rs])
qed

lemma all_failed_run_task:
  "run_task all_failed_env (new_task ''task-a'' 2 0) =
     ((new_task ''task-a'' 2 0)\<lparr>status := RUNNING, progress := 2, fail_count := 2,
        results := [Some (failure_record account_timeout_error),
                    Some (failure_record account_timeout_error)]\<rparr>, Finished)"
  by (simp add: run_task_def py_range_2 all_failed_env_def new_task_def Let_def
      register_one_sync_alive [OF hung_worker_alive] failure_record_def)

lemma all_failed_run:
  "snd (run_register_async pending_service (new_task ''task-a'' 2 0) all_failed_env 5) = Finished"
  by (simp add: run_register_async_def all_failed_run_task Let_def)

lemma empty_start:
  "start_register init_service 0 None ''task-a'' 0 =
     (fst (start_register init_service 0 None ''task-a'' 0), Inr (new_task ''task-a'' 0 0))"
  by (simp add: start_register_def start_blocked_def init_service_def Let_def)

lemma empty_run:
  "snd (run_register_async (fst (start_register init_service 0 None ''task-a'' 0))
          (new_task ''task-a'' 0 0) demo_env 5) = Finished"
  by (simp add: run_register_async_def run_task_def py_range_def new_task_def Let_def)

text \<open>
  Witness for C1: a batch of two started on a fresh service whose first attempt fails and
  whose second succeeds ends as \<open>SUCCESS\<close>; the batch of two whose attempts both fail, and the
  batch of count 0, end as \<open>FAILED\<close>.
\<close>

theorem batch_counts_and_status_witness:
  "(0::int) \<le> 2 \<and>
   start_register init_service 2 None ''task-a'' 0 = (pending_service, Inr (new_task ''task-a'' 2 0)) \<and>
   snd (run_register_async pending_service (new_task ''task-a'' 2 0) demo_env 5) = Finished \<and>
   (\<exists>final. get_task (fst (run_register_async pending_service (new_task ''task-a'' 2 0) demo_env 5))
               ''task-a'' = Some final \<and>
      results final = [Some (failure_record account_timeout_error), Some ok_result] \<and>
      success_count final = 1 \<and> fail_count final = 1 \<and> progress final = 2 \<and>
      status final = SUCCESS) \<and>
   snd (run_register_async pending_service (new_task ''task-a'' 2 0) all_failed_env 5) = Finished \<and>
   (\<exists>final. get_task (fst (run_register_async pending_service (new_task ''task-a'' 2 0)
                              all_failed_env 5)) ''task-a'' = Some final \<and>
      success_count final = 0 \<and> fail_count final = 2 \<and> status final = FAILED) \<and>
   (\<exists>final. get_task (fst (run_register_async (fst (start_register init_service 0 None ''task-a'' 0))
                              (new_task ''task-a'' 0 0) demo_env 5)) ''task-a'' = Some final \<and>
      success_count final = 0 \<and> fail_count final = 0 \<and> progress final = 0 \<and>
      status final = FAILED)"
proof -
  have z: "(0::int) \<le> 2" and z0: "(0::int) \<le> 0" by simp_all
  have r: "run_register_async pending_service (new_task ''task-a'' 2 0) demo_env 5 =
             (fst (run_register_async pending_service (new_task ''task-a'' 2 0) demo_env 5), Finished)"
    using demo_run by (simp add: prod_eq_iff)
  have r2: "run_register_async pending_service (new_task ''task-a'' 2 0) all_failed_env 5 =
             (fst (run_register_async pending_service (new_task ''task-a'' 2 0) all_failed_env 5),
              Finished)"
    using all_failed_run by (simp add: prod_eq_iff)
  have r0: "run_register_async (fst (start_register init_service 0 None ''task-a'' 0))
              (new_task ''task-a'' 0 0) demo_env 5 =
             (fst (run_register_async (fst (start_register init_service 0 None ''task-a'' 0))
                     (new_task ''task-a'' 0 0) demo_env 5), Finished)"
    using empty_run by (simp add: prod_eq_iff)
  have e: "\<exists>final. get_task (fst (run_register_async pending_service (new_task ''task-a'' 2 0) demo_env 5))
               ''task-a'' = Some final \<and>
      results final = [Some (failure_record account_timeout_error), Some ok_result] \<and>
      success_count final = 1 \<and> fail_count final = 1 \<and> progress final = 2 \<and>
      status final = SUCCESS"
  proof -
    from batch_counts_and_status [OF z demo_start r] obtain final rs where
      g: "get_task (fst (run_register_async pending_service (new_task ''task-a'' 2 0) demo_env 5))
            ''task-a'' = Some final"
      and len: "length rs = nat 2"
      and nth: "\<forall>i < nat 2. attempt demo_env i = Done (Some (rs ! i))"
      and res: "results final = map Some rs"
      and sc: "success_count final = int (length (filter success rs))"
      and fc: "fail_count final = int (length (filter (\<lambda>r. \<not> success r) rs))"
      and pr: "progress final = 2"
      and st: "status final = SUCCESS \<longleftrightarrow> (\<exists>r \<in> set rs. success r)"
      by (elim exE conjE)
    from nth have "attempt demo_env 0 = Done (Some (rs ! 0))"
      and "attempt demo_env 1 = Done (Some (rs ! 1))"
      by simp_all
    then have n0: "rs ! 0 = failure_record account_timeout_error" and n1: "rs ! 1 = ok_result"
      by (simp_all add: demo_env_def register_one_sync_alive [OF hung_worker_alive]
          quick_worker_result)
    from len have "rs = [rs ! 0, rs ! 1]"
      by (cases rs; cases "tl rs") auto
    with n0 n1 have rs: "rs = [failure_record account_timeout_error, ok_result]"
      by simp
    have "get_task (fst (run_register_async pending_service (new_task ''task-a'' 2 0) demo_env 5))
               ''task-a'' = Some final \<and>
      results final = [Some (failure_record account_timeout_error), Some ok_result] \<and>
      success_count final = 1 \<and> fail_count final = 1 \<and> progress final = 2 \<and>
      status final = SUCCESS"
      using g res sc fc pr st unfolding rs
      by (simp add: failure_record_def ok_result_def)
    then show ?thesis by - (rule exI [of _ final])
  qed
  have f: "\<exists>final. get_task (fst (run_register_async pending_service (new_task ''task-a'' 2 0)
                              all_failed_env 5)) ''task-a'' = Some final \<and>
      success_count final = 0 \<and> fail_count final = 2 \<and> status final = FAILED"
  proof -
    from batch_counts_and_status [OF z demo_start r2] obtain final rs where
      g: "get_task (fst (run_register_async pending_service (new_task ''task-a'' 2 0)
                              all_failed_env 5)) ''task-a'' = Some final"
      and len: "length rs = nat 2"
      and nth: "\<forall>i < nat 2. attempt all_failed_env i = Done (Some (rs ! i))"
      and sc: "success_count final = int (length (filter success rs))"
      and sum: "success_count final + fail_count final = 2"
      and st: "(\<forall>r \<in> set rs. \<not> success r) \<longrightarrow> status final = FAILED"
      by (elim exE conjE)
    have all: "\<forall>r \<in> set rs. \<not> success r"
    proof
      fix r assume "r \<in> set rs"
      then obtain i where i: "i < length rs" and ri: "rs ! i = r"
        by (auto simp: in_set_conv_nth)
      with len nth have "attempt all_failed_env i = Done (Some r)"
        by auto
      then show "\<not> success r"
        by (auto simp: all_failed_env_def register_one_sync_alive [OF hung_worker_alive]
            failure_record_def)
    qed
    then have "filter success rs = []"
      by (simp add: filter_empty_conv)
    with sc have s0: "success_count final = 0" by simp
    with sum have f2: "fail_count final = 2" by simp
    from st all have "status final = FAILED" by simp
    with g s0 f2 have "get_task (fst (run_register_async pending_service (new_task ''task-a'' 2 0)
                              all_failed_env 5)) ''task-a'' = Some final \<and>
      success_count final = 0 \<and> fail_count final = 2 \<and> status final = FAILED"
      by simp
    then show ?thesis by - (rule exI [of _ final])
  qed
  have h: "\<exists>final. get_task (fst (run_register_async (fst (start_register init_service 0 None ''task-a'' 0))
                              (new_task ''task-a'' 0 0) demo_env 5)) ''task-a'' = Some final \<and>
      success_count final = 0 \<and> fail_count final = 0 \<and> progress final = 0 \<and>
      status final = FAILED"
  proof -
    from batch_counts_and_status [OF z0 empty_start r0] obtain final rs where
      g: "get_task (fst (run_register_async (fst (start_register init_service 0 None ''task-a'' 0))
                              (new_task ''task-a'' 0 0) demo_env 5)) ''task-a'' = Some final"
      and len: "length rs = nat 0"
      and sc: "success_count final = int (length (filter success rs))"
      and fc: "fail_count final = int (length (filter (\<lambda>r. \<not> success r) rs))"
      and pr: "progress final = 0"
      and st: "status final = FAILED \<longleftrightarrow> success_count final = 0"
      by auto
    from len have "rs = []" by simp
    with g sc fc pr st have "get_task (fst (run_register_async (fst (start_register init_service 0 None ''task-a'' 0))
                              (new_task ''task-a'' 0 0) demo_env 5)) ''task-a'' = Some final \<and>
      success_count final = 0 \<and> fail_count final = 0 \<and> progress final = 0 \<and>
      status final = FAILED"
      by simp
    then show ?thesis by - (rule exI [of _ final])
  qed
  show ?thesis
    by (rule conjI [OF z conjI [OF demo_start conjI [OF demo_run conjI [OF e
          conjI [OF all_failed_run conjI [OF f h]]]]]])
qed








text \<open>
  Claim C10. However the \<open>try\<close> block of \<open>_run_register_async\<close> is left (all attempts done, an
  \<open>Exception\<close> caught, or an exception passing through), afterwards the task's \<open>finished_at\<close> is
  set, \<open>_current_task_id\<close> is \<open>None\<close>, \<open>get_current_task()\<close> returns \<open>None\<close>, and the next call of
  \<open>start_register\<close> is accepted: it returns the new task and makes it the current one.
\<close>

theorem finished_run_releases_service:
  "current_task_id (fst (run_register_async s task env now)) = None \<and>
   get_current_task (fst (run_register_async s task env now)) = None \<and>
   map_option finished_at (get_task (fst (run_register_async s task env now)) (task_id task))
     = Some (Some now) \<and>
   snd (start_register (fst (run_register_async s task env now)) n domain uuid t1)
     = Inr (new_task uuid n t1) \<and>
   get_current_task (fst (start_register (fst (run_register_async s task env now)) n domain uuid t1))
     = (if uuid = [] then None else Some (new_task uuid n t1))"
  by (simp add: run_register_async_def Let_def get_current_task_def get_task_def
      start_register_def start_blocked_def new_task_def)

text \<open>
  Counterexample for C3 as stated. Directly after \<open>start_register\<close> has returned, the new task
  is the current task, it is not finished, and its status is still \<open>PENDING\<close> because the
  coroutine has not run yet. A second \<open>start_register\<close> in that state is accepted: it creates
  a second task and moves the active-task pointer to it.
\<close>

theorem start_while_pending_counterexample:
  "get_current_task pending_service = Some (new_task ''task-a'' 2 0) \<and>
   finished_at (new_task ''task-a'' 2 0) = None \<and>
   start_register pending_service 1 None ''task-b'' 1 =
     (pending_service\<lparr>tasks := (tasks pending_service)(''task-b'' \<mapsto> new_task ''task-b'' 1 1),
                       current_task_id := Some ''task-b''\<rparr>,
      Inr (new_task ''task-b'' 1 1)) \<and>
   get_current_task (fst (start_register pending_service 1 None ''task-b'' 1))
     = Some (new_task ''task-b'' 1 1)"
  by (simp add: pending_service_def start_register_def start_blocked_def init_service_def
      get_current_task_def Let_def new_task_def)

text \<open>
  Claim C3, amended. For every call of \<open>start_register\<close> while the current task has status
  \<open>RUNNING\<close>, the call raises \<open>ValueError\<close> and the service state (task table, every task's
  status, counts and results, the active-task pointer, the stored domain) is exactly what it
  was; no task is created.
\<close>

theorem start_rejected_while_running:
  assumes "get_current_task s = Some current_task"
    and "status current_task = RUNNING"
  shows "start_register s n domain uuid now = (s, Inl (ValueError already_running_message))"
  using assms
  by (auto simp: start_register_def start_blocked_def get_current_task_def
      split: option.splits if_splits)

text \<open>Witness for C3: a service whose current task is running its first attempt.\<close>

theorem start_rejected_while_running_witness:
  "get_current_task running_service = Some ((new_task ''task-a'' 2 0)\<lparr>status := RUNNING, progress := 1\<rparr>) \<and>
   status ((new_task ''task-a'' 2 0)\<lparr>status := RUNNING, progress := 1\<rparr>) = RUNNING \<and>
   start_register running_service 3 None ''task-b'' 1 =
     (running_service, Inl (ValueError already_running_message))"
proof -
  have g: "get_current_task running_service =
             Some ((new_task ''task-a'' 2 0)\<lparr>status := RUNNING, progress := 1\<rparr>)"
    by (simp add: running_service_def get_current_task_def)
  have r: "status ((new_task ''task-a'' 2 0)\<lparr>status := RUNNING, progress := 1\<rparr>) = RUNNING"
    by simp
  show ?thesis
    by (rule conjI [OF g conjI [OF r start_rejected_while_running [OF g r]]])
qed

section \<open>Properties of the crash-aware navigator\<close>

lemma good_recovery_ok: "recover_from_crash good_recovery"
  by (simp add: recover_from_crash_def good_recovery_def)

lemma crash_page_detected: "detected_crash crash_page"
  unfolding detected_crash_def crash_page_def by simp code_simp

lemma crash_page_recovers: "recover_from_crash (recovery crash_page)"
  by (simp add: crash_page_def good_recovery_ok)

lemma workspace_page_target: "target_poll workspace_page"
  unfolding target_poll_def workspace_page_def by simp code_simp

lemma idle_page_idle: "idle_poll idle_page"
  by code_simp

lemma tab_error_detected: "detected_crash tab_error_poll"
  by code_simp

lemma tab_error_recovers: "recover_from_crash (recovery tab_error_poll)"
  by (simp add: tab_error_poll_def good_recovery_ok)

lemma stuck_page_detected: "detected_crash stuck_crash_page"
  by code_simp

lemma stuck_page_no_recovery: "\<not> recover_from_crash (recovery stuck_crash_page)"
  by (simp add: stuck_crash_page_def recover_from_crash_def good_recovery_def)

lemma wait_loop_target:
  assumes "target_poll (obs j)"
  shows "wait_loop obs mx (j # ks) cc = (True, cc)"
  using assms by (auto simp: target_poll_def split: io.splits)

lemma wait_loop_idle:
  assumes "idle_poll (obs j)"
  shows "wait_loop obs mx (j # ks) cc = wait_loop obs mx ks cc"
proof (cases "page_source (obs j)")
  case (Exc msg)
  with assms show ?thesis
    by (simp add: idle_poll_def detected_crash_def)
next
  case (Ok src)
  show ?thesis
  proof (cases "current_url (obs j)")
    case (Exc msg)
    with Ok assms show ?thesis
      by (simp add: idle_poll_def detected_crash_def target_poll_def split: if_splits)
  next
    case inner: (Ok url)
    with Ok assms show ?thesis
      by (simp add: idle_poll_def detected_crash_def target_poll_def split: if_splits)
  qed
qed

lemma wait_loop_detected:
  assumes "detected_crash (obs j)"
  shows "wait_loop obs mx (j # ks) cc =
           (if mx \<le> int (Suc cc) then (False, Suc cc)
            else if recover_from_crash (recovery (obs j)) then wait_loop obs mx ks (Suc cc)
            else (False, Suc cc))"
proof (cases "page_source (obs j)")
  case (Exc msg)
  with assms show ?thesis
    by (simp add: detected_crash_def)
next
  case (Ok src)
  show ?thesis
  proof (cases "is_crashed src")
    case True
    with Ok show ?thesis by simp
  next
    case False
    with Ok assms show ?thesis
      by (cases "current_url (obs j)") (simp_all add: detected_crash_def)
  qed
qed

lemma wait_loop_prefix:
  "\<lbrakk>\<forall>i. a \<le> i \<and> i < a + d \<longrightarrow>
        idle_poll (obs i) \<or> (detected_crash (obs i) \<and> recover_from_crash (recovery (obs i)));
    k = length (filter (\<lambda>i. detected_crash (obs i)) [a ..< a + d]);
    k = 0 \<or> int (cc + k) < mx;
    a + d \<le> n\<rbrakk>
   \<Longrightarrow> wait_loop obs mx [a ..< n] cc = wait_loop obs mx [a + d ..< n] (cc + k)"
proof (induction d arbitrary: a cc k)
  case 0
  then show ?case by simp
next
  case (Suc d)
  define k' where "k' = length (filter (\<lambda>i. detected_crash (obs i)) [Suc a ..< Suc a + d])"
  have split: "[a ..< n] = a # [Suc a ..< n]"
    using Suc.prems(4) by (simp add: upt_conv_Cons)
  have split': "[a ..< a + Suc d] = a # [Suc a ..< Suc a + d]"
    by (simp add: upt_conv_Cons)
  have later: "\<forall>i. Suc a \<le> i \<and> i < Suc a + d \<longrightarrow>
        idle_poll (obs i) \<or> (detected_crash (obs i) \<and> recover_from_crash (recovery (obs i)))"
    using Suc.prems(1) by simp
  have fits: "Suc a + d \<le> n"
    using Suc.prems(4) by simp
  have here: "idle_poll (obs a) \<or> (detected_crash (obs a) \<and> recover_from_crash (recovery (obs a)))"
    using Suc.prems(1) by simp
  show ?case
  proof (cases "detected_crash (obs a)")
    case False
    with here have idle: "idle_poll (obs a)" by simp
    have k: "k = k'"
      using Suc.prems(2) False unfolding split' k'_def by simp
    have budget: "k' = 0 \<or> int (cc + k') < mx"
      using Suc.prems(3) k by simp
    have "wait_loop obs mx [Suc a ..< n] cc = wait_loop obs mx [Suc a + d ..< n] (cc + k')"
      by (rule Suc.IH [OF later k'_def budget fits])
    then show ?thesis
      by (simp del: wait_loop.simps add: split wait_loop_idle [where obs=obs and j=a, OF idle] k)
  next
    case True
    with here have rec: "recover_from_crash (recovery (obs a))"
      by (simp add: idle_poll_def)
    have k: "k = Suc k'"
      using Suc.prems(2) True unfolding split' k'_def by simp
    with Suc.prems(3) have below: "int (cc + Suc k') < mx" by simp
    then have go_on: "\<not> mx \<le> int (Suc cc)" by simp
    have budget: "k' = 0 \<or> int (Suc cc + k') < mx"
      using below by simp
    have "wait_loop obs mx [Suc a ..< n] (Suc cc) = wait_loop obs mx [Suc a + d ..< n] (Suc cc + k')"
      by (rule Suc.IH [OF later k'_def budget fits])
    then show ?thesis
      using go_on rec
      by (simp del: wait_loop.simps
          add: split wait_loop_detected [where obs=obs and j=a, OF True] k)
  qed
qed

lemma wait_for_workspace_prefix:
  assumes "\<forall>i<j. idle_poll (obs i) \<or> (detected_crash (obs i) \<and> recover_from_crash (recovery (obs i)))"
    and "crashes_before obs j = 0 \<or> int (crashes_before obs j) < mx"
    and "j \<le> nat timeout"
  shows "wait_for_workspace obs timeout mx =
           wait_loop obs mx [j ..< nat timeout] (crashes_before obs j)"
proof -
  have "wait_loop obs mx [0 ..< nat timeout] 0 =
          wait_loop obs mx [0 + j ..< nat timeout] (0 + crashes_before obs j)"
  proof (rule wait_loop_prefix)
    show "\<forall>i. 0 \<le> i \<and> i < 0 + j \<longrightarrow>
        idle_poll (obs i) \<or> (detected_crash (obs i) \<and> recover_from_crash (recovery (obs i)))"
      using assms(1) by simp
    show "crashes_before obs j = length (filter (\<lambda>i. detected_crash (obs i)) [0 ..< 0 + j])"
      by (simp add: crashes_before_def)
    show "crashes_before obs j = 0 \<or> int (0 + crashes_before obs j) < mx"
      using assms(2) by simp
    show "0 + j \<le> nat timeout"
      using assms(3) by simp
  qed
  then show ?thesis
    by (simp add: wait_for_workspace_def py_range_def)
qed

text \<open>
  Counterexample for C5 as stated. With the default budget of 3, a page that crashes on its
  first three polls (each recovery working) and shows the workspace afterwards makes
  \<open>wait_for_workspace\<close> give up on the third crash, although the number of crashes (3) does not
  exceed \<open>max_crash_retries\<close> (3): the test in the source is
  \<open>crash_count >= max_crash_retries\<close>.
\<close>

theorem gives_up_at_budget_counterexample:
  "detected_crash (crashes_then_workspace 3 0) \<and>
   recover_from_crash (recovery (crashes_then_workspace 3 0)) \<and>
   detected_crash (crashes_then_workspace 3 1) \<and>
   recover_from_crash (recovery (crashes_then_workspace 3 1)) \<and>
   detected_crash (crashes_then_workspace 3 2) \<and>
   target_poll (crashes_then_workspace 3 3) \<and>
   wait_for_workspace (crashes_then_workspace 3) 30 3 = (False, 3)"
proof -
  have w: "wait_for_workspace (crashes_then_workspace 3) 30 3 = (False, 3)"
    by code_simp
  show ?thesis
    by (simp add: crashes_then_workspace_def crash_page_detected crash_page_recovers
        workspace_page_target w)
qed

text \<open>
  Claim C5, amended. Every detected crash is counted, whether the page content signals it or
  the driver raises a crash-like error, and whether or not healthy polls lie in between. Let
  \<open>j\<close> be an iteration before which every poll was idle or a detected crash with a working
  recovery, the crashes so far numbering \<open>c\<close>, below \<open>max_crash_retries\<close>. Then:
  if poll \<open>j\<close> shows the workspace, the result is success after exactly \<open>c\<close> recoveries;
  if poll \<open>j\<close> is a detected crash that brings the count to \<open>max_crash_retries\<close>, the navigator
  gives up without a further recovery; if poll \<open>j\<close> is a detected crash below the budget whose
  recovery fails, it gives up as well; and if the timeout is used up, the result is failure.
  So the navigator recovers on each detected crash while the count is below
  \<open>max_crash_retries\<close> and performs at most \<open>max_crash_retries - 1\<close> recoveries.
\<close>

theorem counts_every_crash_and_gives_up_at_budget:
  assumes "\<forall>i<j. idle_poll (obs i) \<or> (detected_crash (obs i) \<and> recover_from_crash (recovery (obs i)))"
    and "crashes_before obs j = 0 \<or> int (crashes_before obs j) < max_crash_retries"
    and "j \<le> nat timeout"
  shows "(j < nat timeout \<and> target_poll (obs j) \<longrightarrow>
            wait_for_workspace obs timeout max_crash_retries = (True, crashes_before obs j)) \<and>
         (j < nat timeout \<and> detected_crash (obs j) \<and>
          max_crash_retries \<le> int (crashes_before obs j) + 1 \<longrightarrow>
            wait_for_workspace obs timeout max_crash_retries = (False, crashes_before obs j + 1)) \<and>
         (j < nat timeout \<and> detected_crash (obs j) \<and>
          int (crashes_before obs j) + 1 < max_crash_retries \<and>
          \<not> recover_from_crash (recovery (obs j)) \<longrightarrow>
            wait_for_workspace obs timeout max_crash_retries = (False, crashes_before obs j + 1)) \<and>
         (j = nat timeout \<longrightarrow>
            wait_for_workspace obs timeout max_crash_retries = (False, crashes_before obs j))"
proof -
  note pre = wait_for_workspace_prefix [OF assms]
  have split: "j < nat timeout \<Longrightarrow> [j ..< nat timeout] = j # [Suc j ..< nat timeout]"
    by (simp add: upt_conv_Cons)
  have a: "j < nat timeout \<and> target_poll (obs j) \<longrightarrow>
            wait_for_workspace obs timeout max_crash_retries = (True, crashes_before obs j)"
  proof
    assume h: "j < nat timeout \<and> target_poll (obs j)"
    then have t: "target_poll (obs j)" and l: "j < nat timeout" by simp_all
    show "wait_for_workspace obs timeout max_crash_retries = (True, crashes_before obs j)"
      unfolding pre split [OF l] by (rule wait_loop_target [where obs=obs and j=j, OF t])
  qed
  have b: "j < nat timeout \<and> detected_crash (obs j) \<and>
          max_crash_retries \<le> int (crashes_before obs j) + 1 \<longrightarrow>
            wait_for_workspace obs timeout max_crash_retries = (False, crashes_before obs j + 1)"
  proof
    assume h: "j < nat timeout \<and> detected_crash (obs j) \<and>
          max_crash_retries \<le> int (crashes_before obs j) + 1"
    then have d: "detected_crash (obs j)" and l: "j < nat timeout"
      and m: "max_crash_retries \<le> int (Suc (crashes_before obs j))"
      by simp_all
    show "wait_for_workspace obs timeout max_crash_retries = (False, crashes_before obs j + 1)"
      unfolding pre split [OF l]
      using m by (simp del: wait_loop.simps add: wait_loop_detected [where obs=obs and j=j, OF d])
  qed
  have c: "j < nat timeout \<and> detected_crash (obs j) \<and>
          int (crashes_before obs j) + 1 < max_crash_retries \<and>
          \<not> recover_from_crash (recovery (obs j)) \<longrightarrow>
            wait_for_workspace obs timeout max_crash_retries = (False, crashes_before obs j + 1)"
  proof
    assume h: "j < nat timeout \<and> detected_crash (obs j) \<and>
          int (crashes_before obs j) + 1 < max_crash_retries \<and>
          \<not> recover_from_crash (recovery (obs j))"
    then have d: "detected_crash (obs j)" and l: "j < nat timeout"
      and m: "\<not> max_crash_retries \<le> int (Suc (crashes_before obs j))"
      and r: "\<not> recover_from_crash (recovery (obs j))"
      by simp_all
    show "wait_for_workspace obs timeout max_crash_retries = (False, crashes_before obs j + 1)"
      unfolding pre split [OF l]
      using m r by (simp del: wait_loop.simps add: wait_loop_detected [where obs=obs and j=j, OF d])
  qed
  have e: "j = nat timeout \<longrightarrow>
            wait_for_workspace obs timeout max_crash_retries = (False, crashes_before obs j)"
    unfolding pre by simp
  show ?thesis
    by (rule conjI [OF a conjI [OF b conjI [OF c e]]])
qed

lemma two_crashes_count: "crashes_before (crashes_then_workspace 2) 2 = 2"
  by (simp add: crashes_before_def upt_rec crashes_then_workspace_def crash_page_detected)

lemma mixed_count: "crashes_before mixed_polls 5 = 2"
  using idle_page_idle
  by (simp add: crashes_before_def upt_rec mixed_polls_def tab_error_detected crash_page_detected
      idle_poll_def)

lemma stuck_count: "crashes_before stuck_polls 1 = 0"
  using idle_page_idle
  by (simp add: crashes_before_def upt_rec stuck_polls_def idle_poll_def)

lemma idle_count: "crashes_before (\<lambda>k. idle_page) j = 0"
  using idle_page_idle by (simp add: crashes_before_def idle_poll_def)

text \<open>
  Witness for C5, with the default timeout 30 and budget 3: the page that crashes on its first
  two polls and shows the workspace on the third is reached after two recoveries; crashes that
  alternate with idle polls, the first of them reported by the driver, are all counted and the
  third one ends the wait; a crash whose recovery fails ends the wait; a page that stays idle
  ends in failure at the timeout.
\<close>

theorem counts_every_crash_and_gives_up_at_budget_witness:
  "crashes_before (crashes_then_workspace 2) 2 = 2 \<and>
   target_poll (crashes_then_workspace 2 2) \<and>
   wait_for_workspace (crashes_then_workspace 2) 30 3 = (True, 2) \<and>
   crashes_before mixed_polls 5 = 2 \<and>
   detected_crash (mixed_polls 5) \<and>
   wait_for_workspace mixed_polls 30 3 = (False, 2 + 1) \<and>
   crashes_before stuck_polls 1 = 0 \<and>
   detected_crash (stuck_polls 1) \<and>
   wait_for_workspace stuck_polls 30 3 = (False, 0 + 1) \<and>
   wait_for_workspace (\<lambda>k. idle_page) 30 3 = (False, 0)"
proof -
  have p2: "\<forall>i<2. idle_poll (crashes_then_workspace 2 i) \<or>
              (detected_crash (crashes_then_workspace 2 i) \<and>
               recover_from_crash (recovery (crashes_then_workspace 2 i)))"
    by (simp add: crashes_then_workspace_def crash_page_detected crash_page_recovers)
  have b2: "crashes_before (crashes_then_workspace 2) 2 = 0 \<or>
            int (crashes_before (crashes_then_workspace 2) 2) < 3"
    by (simp add: two_crashes_count)
  have t2: "target_poll (crashes_then_workspace 2 2)"
    by (simp add: crashes_then_workspace_def workspace_page_target)
  have l2: "2 \<le> nat 30" by simp
  have r1: "wait_for_workspace (crashes_then_workspace 2) 30 3 = (True, 2)"
    using counts_every_crash_and_gives_up_at_budget [OF p2 b2 l2, THEN conjunct1] t2
    by (simp add: two_crashes_count)
  have pm: "\<forall>i<5. idle_poll (mixed_polls i) \<or>
              (detected_crash (mixed_polls i) \<and> recover_from_crash (recovery (mixed_polls i)))"
    by (simp add: mixed_polls_def idle_page_idle tab_error_detected tab_error_recovers
        crash_page_detected crash_page_recovers)
  have bm: "crashes_before mixed_polls 5 = 0 \<or> int (crashes_before mixed_polls 5) < 3"
    by (simp add: mixed_count)
  have dm: "detected_crash (mixed_polls 5)"
    by (simp add: mixed_polls_def crash_page_detected)
  have lm: "5 \<le> nat 30" by simp
  have r2: "wait_for_workspace mixed_polls 30 3 = (False, 2 + 1)"
    using counts_every_crash_and_gives_up_at_budget
            [OF pm bm lm, THEN conjunct2, THEN conjunct1] dm
    by (simp add: mixed_count)
  have ps: "\<forall>i<1. idle_poll (stuck_polls i) \<or>
              (detected_crash (stuck_polls i) \<and> recover_from_crash (recovery (stuck_polls i)))"
    by (simp add: stuck_polls_def idle_page_idle)
  have bs: "crashes_before stuck_polls 1 = 0 \<or> int (crashes_before stuck_polls 1) < 3"
    by (rule disjI1 [OF stuck_count])
  have ds: "detected_crash (stuck_polls 1)"
    by (simp add: stuck_polls_def stuck_page_detected)
  have ns: "\<not> recover_from_crash (recovery (stuck_polls 1))"
    by (simp add: stuck_polls_def stuck_page_no_recovery)
  have ls: "1 \<le> nat 30" by simp
  have r3: "wait_for_workspace stuck_polls 30 3 = (False, 0 + 1)"
    using counts_every_crash_and_gives_up_at_budget
            [OF ps bs ls, THEN conjunct2, THEN conjunct2, THEN conjunct1] ds ns
    unfolding stuck_count by simp
  have pi: "\<forall>i<30. idle_poll ((\<lambda>k. idle_page) i) \<or>
              (detected_crash ((\<lambda>k. idle_page) i) \<and>
               recover_from_crash (recovery ((\<lambda>k. idle_page) i)))"
    by (simp add: idle_page_idle)
  have bi: "crashes_before (\<lambda>k. idle_page) 30 = 0 \<or>
            int (crashes_before (\<lambda>k. idle_page) 30) < 3"
    by (simp add: idle_count)
  have li: "30 \<le> nat 30" by simp
  have r4: "wait_for_workspace (\<lambda>k. idle_page) 30 3 = (False, 0)"
    using counts_every_crash_and_gives_up_at_budget
            [OF pi bi li, THEN conjunct2, THEN conjunct2, THEN conjunct2]
    by (simp add: idle_count)
  show ?thesis
    by (rule conjI [OF two_crashes_count conjI [OF t2 conjI [OF r1 conjI [OF mixed_count
          conjI [OF dm conjI [OF r2 conjI [OF stuck_count conjI [OF ds conjI [OF r3 r4]]]]]]]]])
qed

section \<open>Properties of the credential extraction\<close>

lemma snapshot_config_expiry:
  assumes "snapshot_config query format_local address snap = Ok (Some cfg)"
  shows "cookie_value (ses_cookie snap) = Some (secure_c_ses cfg) \<and>
         (cookie_expiry (ses_cookie snap) = None \<longrightarrow> expires_at cfg = None) \<and>
         (cookie_expiry (ses_cookie snap) = Some 0 \<longrightarrow> expires_at cfg = None) \<and>
         (\<forall>T. cookie_expiry (ses_cookie snap) = Some T \<and> T \<noteq> 0 \<longrightarrow>
              (\<exists>stamp. format_local (T - 43200) = Ok stamp \<and> expires_at cfg = Some stamp))"
proof (cases "cookie_expiry (ses_cookie snap)")
  case None
  with assms show ?thesis
    by (auto simp: snapshot_config_def Let_def truthy_def split: if_splits option.splits)
next
  case (Some T)
  show ?thesis
  proof (cases "T = 0")
    case True
    with Some assms show ?thesis
      by (auto simp: snapshot_config_def Let_def truthy_def split: if_splits option.splits)
  next
    case False
    with Some assms show ?thesis
      by (cases "format_local (T - 43200)")
         (auto simp: snapshot_config_def Let_def truthy_def split: if_splits option.splits)
  qed
qed

lemma extract_from_some_poll:
  "extract_config_from_driver query format_local address polls final = Ok (Some cfg) \<Longrightarrow>
     \<exists>snap. Ok snap \<in> set polls \<and> snapshot_config query format_local address snap = Ok (Some cfg)"
proof (induction polls)
  case Nil
  then show ?case by (simp split: io.splits)
next
  case (Cons p polls)
  show ?case
  proof (cases p)
    case (Exc e)
    with Cons.prems show ?thesis by simp
  next
    case (Ok snap)
    show ?thesis
    proof (cases "snapshot_config query format_local address snap")
      case (Exc e)
      with Ok Cons.prems show ?thesis by simp
    next
      case inner: (Ok r)
      show ?thesis
      proof (cases r)
        case None
        with inner Ok Cons.prems
        have "extract_config_from_driver query format_local address polls final = Ok (Some cfg)"
          by simp
        from Cons.IH [OF this] show ?thesis by auto
      next
        case (Some c)
        with inner Ok Cons.prems have "c = cfg" by simp
        with Some inner Ok show ?thesis by auto
      qed
    qed
  qed
qed

lemma demo_extract:
  "extract_config_from_driver demo_query utc_strftime ''a@b.c''
     [Ok login_snapshot, Ok (workspace_snapshot (Some 1700000000))] (Ok login_snapshot)
   = Ok (Some (demo_config (Some ''2023-11-14 10:13:20'')))"
  by code_simp

lemma demo_ses_cookie: "cookie_expiry (ses_cookie (workspace_snapshot e)) = e"
  by (simp add: ses_cookie_def get_cookie_def cookie_dict_def workspace_snapshot_def)

text \<open>
  Counterexample for C8 as stated. The session cookie reports the integer expiry timestamp 0.
  The extraction succeeds, and the recorded \<open>expires_at\<close> is null rather than the formatting
  of \<open>0 - 43200\<close>: the source tests \<open>if ses_cookie.get("expiry")\<close>, which is false for 0.
\<close>

theorem zero_expiry_counterexample:
  "cookie_expiry (ses_cookie (workspace_snapshot (Some 0))) = Some 0 \<and>
   utc_strftime (0 - 43200) = Ok ''1969-12-31 12:00:00'' \<and>
   extract_config_from_driver demo_query utc_strftime ''a@b.c''
     [Ok (workspace_snapshot (Some 0))] (Ok login_snapshot)
   = Ok (Some (demo_config None))"
  by code_simp

text \<open>
  Claim C8, amended. For every successful extraction, the returned record was built from one
  of the readings of the driver, and for the session cookie of that reading: when it reports a
  nonzero integer expiry timestamp \<open>T\<close>, the recorded \<open>expires_at\<close> is the calendar formatting
  of \<open>T - 43200\<close>; when it reports no expiry, or the expiry 0, \<open>expires_at\<close> is null.
\<close>

theorem expires_at_is_expiry_minus_skew:
  assumes "extract_config_from_driver query format_local address polls final = Ok (Some cfg)"
  shows "\<exists>snap. Ok snap \<in> set polls \<and>
           cookie_value (ses_cookie snap) = Some (secure_c_ses cfg) \<and>
           (cookie_expiry (ses_cookie snap) = None \<longrightarrow> expires_at cfg = None) \<and>
           (cookie_expiry (ses_cookie snap) = Some 0 \<longrightarrow> expires_at cfg = None) \<and>
           (\<forall>T. cookie_expiry (ses_cookie snap) = Some T \<and> T \<noteq> 0 \<longrightarrow>
                (\<exists>stamp. format_local (T - 43200) = Ok stamp \<and> expires_at cfg = Some stamp))"
proof -
  from extract_from_some_poll [OF assms] obtain snap where
    m: "Ok snap \<in> set polls" and c: "snapshot_config query format_local address snap = Ok (Some cfg)"
    by (elim exE conjE)
  have "Ok snap \<in> set polls \<and>
           (cookie_value (ses_cookie snap) = Some (secure_c_ses cfg) \<and>
           (cookie_expiry (ses_cookie snap) = None \<longrightarrow> expires_at cfg = None) \<and>
           (cookie_expiry (ses_cookie snap) = Some 0 \<longrightarrow> expires_at cfg = None) \<and>
           (\<forall>T. cookie_expiry (ses_cookie snap) = Some T \<and> T \<noteq> 0 \<longrightarrow>
                (\<exists>stamp. format_local (T - 43200) = Ok stamp \<and> expires_at cfg = Some stamp)))"
    using m snapshot_config_expiry [OF c] by (rule conjI)
  then show ?thesis by (rule exI)
qed

text \<open>
  Witness for C8: the session cookie expires at 1700000000 (2023-11-14 22:13:20 UTC); the
  record holds the time twelve hours earlier.
\<close>

theorem expires_at_is_expiry_minus_skew_witness:
  "extract_config_from_driver demo_query utc_strftime ''a@b.c''
     [Ok login_snapshot, Ok (workspace_snapshot (Some 1700000000))] (Ok login_snapshot)
   = Ok (Some (demo_config (Some ''2023-11-14 10:13:20''))) \<and>
   (\<exists>snap. Ok snap \<in> set [Ok login_snapshot, Ok (workspace_snapshot (Some 1700000000))] \<and>
      cookie_value (ses_cookie snap) = Some ''ses-secret'' \<and>
      (\<exists>T. cookie_expiry (ses_cookie snap) = Some T \<and>
         utc_strftime (T - 43200) = Ok ''2023-11-14 10:13:20''))"
proof -
  note d = demo_extract
  from expires_at_is_expiry_minus_skew [OF d] obtain snap where
    s: "Ok snap \<in> set [Ok login_snapshot, Ok (workspace_snapshot (Some 1700000000))]"
    and v: "cookie_value (ses_cookie snap) = Some (secure_c_ses (demo_config (Some ''2023-11-14 10:13:20'')))"
    and n: "cookie_expiry (ses_cookie snap) = None \<longrightarrow>
              expires_at (demo_config (Some ''2023-11-14 10:13:20'')) = None"
    and z: "cookie_expiry (ses_cookie snap) = Some 0 \<longrightarrow>
              expires_at (demo_config (Some ''2023-11-14 10:13:20'')) = None"
    and t: "\<forall>T. cookie_expiry (ses_cookie snap) = Some T \<and> T \<noteq> 0 \<longrightarrow>
              (\<exists>stamp. utc_strftime (T - 43200) = Ok stamp \<and>
                 expires_at (demo_config (Some ''2023-11-14 10:13:20'')) = Some stamp)"
    by (elim exE conjE)
  have x: "expires_at (demo_config (Some ''2023-11-14 10:13:20'')) = Some ''2023-11-14 10:13:20''"
    and y: "secure_c_ses (demo_config (Some ''2023-11-14 10:13:20'')) = ''ses-secret''"
    by (simp_all add: demo_config_def)
  from n z x obtain T where e: "cookie_expiry (ses_cookie snap) = Some T" and nz: "T \<noteq> 0"
    by (cases "cookie_expiry (ses_cookie snap)") auto
  from t e nz obtain stamp where
    f: "utc_strftime (T - 43200) = Ok stamp"
    and g: "expires_at (demo_config (Some ''2023-11-14 10:13:20'')) = Some stamp"
    by blast
  from g x have "stamp = ''2023-11-14 10:13:20''" by simp
  with f have f': "utc_strftime (T - 43200) = Ok ''2023-11-14 10:13:20''" by simp
  from v y have v': "cookie_value (ses_cookie snap) = Some ''ses-secret''" by simp
  have "\<exists>T. cookie_expiry (ses_cookie snap) = Some T \<and>
         utc_strftime (T - 43200) = Ok ''2023-11-14 10:13:20''"
    using e f' by blast
  with s v' have "\<exists>snap. Ok snap \<in> set [Ok login_snapshot, Ok (workspace_snapshot (Some 1700000000))] \<and>
      cookie_value (ses_cookie snap) = Some ''ses-secret'' \<and>
      (\<exists>T. cookie_expiry (ses_cookie snap) = Some T \<and>
         utc_strftime (T - 43200) = Ok ''2023-11-14 10:13:20'')"
    by blast
  with d show ?thesis by (rule conjI)
qed

section \<open>Properties of the verification code filler\<close>

lemma six_box_attempts_True: "six_box_attempts obs c idx = Some b \<Longrightarrow> b"
  by (induction idx) (auto split: if_splits)

lemma six_boxes_True: "six_boxes obs c = Some b \<Longrightarrow> b"
  by (auto simp: six_boxes_def split: io.splits if_splits dest: six_box_attempts_True)

lemma single_read_loop_True: "single_read_loop obs c reads = Some b \<Longrightarrow> b"
  by (induction reads) (auto split: io.splits if_splits)

lemma single_box_True: "single_box obs c = Some b \<Longrightarrow> b"
  by (auto simp: single_box_def split: io.splits dest: single_read_loop_True)

lemma otp_container_True: "otp_container obs c = Some b \<Longrightarrow> b"
  by (auto simp: otp_container_def split: io.splits if_splits)

lemma six_box_attempts_typed:
  "list_all (\<lambda>a. typing_ok obs a c) idx \<Longrightarrow> six_box_attempts obs c idx = Some True"
  by (induction idx) auto

lemma strip_digits: "py_strip '' 123456 '' = ''123456''"
  by code_simp

text \<open>
  Counterexample for C4 as stated. The code \<open>" 123456 "\<close> has six characters after trimming,
  so the length check passes; on a page where no box is found, both waits time out and the
  final \<open>send_keys\<close> to the focused element raises, the method returns \<open>False\<close>.
\<close>

theorem fill_fails_on_dead_page_counterexample:
  "length (py_strip '' 123456 '') = 6 \<and> fill_verification_code dead_page '' 123456 '' = False"
  by (simp add: fill_verification_code_def strip_digits dead_page_def six_boxes_def
      single_box_def otp_container_def)

text \<open>
  Claim C4, amended. \<open>fill_verification_code\<close> returns failure when the trimmed code does not
  have exactly 6 characters. For a code of 6 characters it returns failure only when none of
  the three \<open>try\<close> blocks returned (each was left by an exception or an unmet condition) and
  the final \<open>send_keys\<close> to the focused element raised as well. A block that is carried out
  never returns failure, whatever the readback shows: in particular, when six boxes exist and
  take the keys, the result is success even if no reading ever equals the code.
\<close>

theorem fill_fails_only_on_length_or_dead_page:
  "(fill_verification_code obs raw_code = False \<longleftrightarrow>
      length (py_strip raw_code) \<noteq> 6 \<or>
      (six_boxes obs (py_strip raw_code) = None \<and> single_box obs (py_strip raw_code) = None \<and>
       otp_container obs (py_strip raw_code) = None \<and> (\<exists>e. last_send obs = Exc e))) \<and>
   (length (py_strip raw_code) = 6 \<and> last_send obs = Ok () \<longrightarrow>
      fill_verification_code obs raw_code = True) \<and>
   (length (py_strip raw_code) = 6 \<and> (\<exists>n. find_pins obs = Ok n \<and> 6 \<le> n) \<and>
    (\<forall>a i. type_char obs a i = Ok ()) \<longrightarrow> fill_verification_code obs raw_code = True)"
proof (intro conjI impI)
  show "fill_verification_code obs raw_code = False \<longleftrightarrow>
      length (py_strip raw_code) \<noteq> 6 \<or>
      (six_boxes obs (py_strip raw_code) = None \<and> single_box obs (py_strip raw_code) = None \<and>
       otp_container obs (py_strip raw_code) = None \<and> (\<exists>e. last_send obs = Exc e))"
    by (auto simp: fill_verification_code_def Let_def
        split: option.splits io.splits
        dest: six_boxes_True single_box_True otp_container_True)
next
  assume "length (py_strip raw_code) = 6 \<and> last_send obs = Ok ()"
  then show "fill_verification_code obs raw_code = True"
    by (auto simp: fill_verification_code_def Let_def
        split: option.splits
        dest: six_boxes_True single_box_True otp_container_True)
next
  assume a: "length (py_strip raw_code) = 6 \<and> (\<exists>n. find_pins obs = Ok n \<and> 6 \<le> n) \<and>
    (\<forall>a i. type_char obs a i = Ok ())"
  then have "\<And>k. typing_ok obs k (py_strip raw_code)"
    by (simp add: typing_ok_def list_all_iff)
  then have "six_box_attempts obs (py_strip raw_code) [0, 1, 2] = Some True"
    by (intro six_box_attempts_typed) simp
  with a have "six_boxes obs (py_strip raw_code) = Some True"
    by (auto simp: six_boxes_def)
  with a show "fill_verification_code obs raw_code = True"
    by (simp add: fill_verification_code_def)
qed

text \<open>
  Witness for C4: six boxes that take the keys but never show a value give success; the page
  on which every block is left and the final \<open>send_keys\<close> raises gives failure.
\<close>

theorem fill_fails_only_on_length_or_dead_page_witness:
  "length (py_strip '' 123456 '') = 6 \<and>
   find_pins unreadable_boxes = Ok 6 \<and>
   type_char unreadable_boxes 0 0 = Ok () \<and>
   poll_typed (first_poll unreadable_boxes 0) ''123456'' = False \<and>
   fill_verification_code unreadable_boxes '' 123456 '' = True \<and>
   fill_verification_code dead_page '' 123456 '' = False \<and>
   fill_verification_code unreadable_boxes ''12345'' = False"
proof -
  have l: "length (py_strip '' 123456 '') = 6"
    by (simp add: strip_digits)
  have f: "find_pins unreadable_boxes = Ok 6" and t: "\<forall>a i. type_char unreadable_boxes a i = Ok ()"
    by (simp_all add: unreadable_boxes_def)
  have p: "poll_typed (first_poll unreadable_boxes 0) ''123456'' = False"
    by (simp add: unreadable_boxes_def poll_typed_def)
  have a: "fill_verification_code unreadable_boxes '' 123456 '' = True"
    using fill_fails_only_on_length_or_dead_page [of unreadable_boxes "'' 123456 ''"] l f t
    by blast
  have d1: "six_boxes dead_page (py_strip '' 123456 '') = None"
    and d2: "single_box dead_page (py_strip '' 123456 '') = None"
    and d3: "otp_container dead_page (py_strip '' 123456 '') = None"
    and d4: "\<exists>e. last_send dead_page = Exc e"
    by (simp_all add: dead_page_def six_boxes_def single_box_def otp_container_def)
  have b: "fill_verification_code dead_page '' 123456 '' = False"
    using fill_fails_only_on_length_or_dead_page [of dead_page "'' 123456 ''"] d1 d2 d3 d4
    by blast
  have s: "length (py_strip ''12345'') \<noteq> 6"
    by code_simp
  have c: "fill_verification_code unreadable_boxes ''12345'' = False"
    using fill_fails_only_on_length_or_dead_page [of unreadable_boxes "''12345''"] s
    by blast
  from t have t0: "type_char unreadable_boxes 0 0 = Ok ()" by simp
  show ?thesis
    by (rule conjI [OF l conjI [OF f conjI [OF t0 conjI [OF p conjI [OF a conjI [OF b c]]]]]])
qed

section \<open>Properties of the code extraction\<close>

lemma first_some_Some:
  "first_some f xs = Some v \<Longrightarrow> \<exists>x \<in> set xs. f x = Some v"
  by (induction xs) (auto split: option.splits)

lemma first_some_None:
  "(\<And>x. x \<in> set xs \<Longrightarrow> f x = None) \<Longrightarrow> first_some f xs = None"
  by (induction xs) auto

lemma first_some_skip:
  "(\<And>x. x \<in> set xs \<Longrightarrow> f x = None) \<Longrightarrow> first_some f (xs @ ys) = first_some f ys"
  by (induction xs) auto

lemma strip_last_not_space:
  assumes "py_strip t \<noteq> []"
  shows "\<not> py_isspace (last (py_strip t))"
proof -
  let ?d = "dropWhile py_isspace (rev (dropWhile py_isspace t))"
  from assms have ne: "?d \<noteq> []"
    by (simp add: py_strip_def)
  then have "\<not> py_isspace (hd ?d)"
    by (rule hd_dropWhile)
  moreover have "last (py_strip t) = hd ?d"
    using ne by (simp add: py_strip_def last_rev)
  ultimately show ?thesis by simp
qed

lemma newline_is_space: "py_isspace (CHR 0x0A)"
  by code_simp

lemma match_six_strip:
  assumes "match_six (py_strip t)"
  shows "length (py_strip t) = 6 \<and> list_all is_alnum (py_strip t)"
proof -
  let ?s = "py_strip t"
  from assms have len: "length (take 6 ?s) = 6" and al: "list_all is_alnum (take 6 ?s)"
    and tl: "drop 6 ?s = [] \<or> drop 6 ?s = [CHR 0x0A]"
    by (simp_all add: match_six_def)
  have "drop 6 ?s \<noteq> [CHR 0x0A]"
  proof
    assume d: "drop 6 ?s = [CHR 0x0A]"
    then have "?s \<noteq> []" by auto
    then have "\<not> py_isspace (last ?s)" by (rule strip_last_not_space)
    moreover have "last ?s = last (drop 6 ?s)"
      using d by (metis last_drop drop_eq_Nil linorder_not_le list.distinct(1))
    ultimately show False using d newline_is_space by simp
  qed
  with tl have "drop 6 ?s = []" by simp
  then have "take 6 ?s = ?s" by simp
  with len al show ?thesis by simp
qed

lemma six_char_text_good:
  "six_char_text el = Some v \<Longrightarrow> length v = 6 \<and> list_all is_alnum v"
  by (auto simp: six_char_text_def Let_def split: if_splits dest: match_six_strip)

lemma first_six_char_text_good:
  "first_some six_char_text els = Some v \<Longrightarrow> length v = 6 \<and> list_all is_alnum v"
  by (blast dest: first_some_Some six_char_text_good)

lemma by_class_good:
  assumes "by_class soup = Some v"
  shows "length v = 6 \<and> list_all is_alnum v"
proof -
  from assms obtain pat where
    "first_some six_char_text (filter (class_matches pat) (all_elements soup)) = Some v"
    unfolding by_class_def by (blast dest: first_some_Some)
  then show ?thesis by (rule first_six_char_text_good)
qed

lemma by_tag_good:
  assumes "by_tag soup = Some v"
  shows "length v = 6 \<and> list_all is_alnum v"
proof -
  from assms obtain tag where
    "first_some six_char_text (filter (\<lambda>el. tag_name el = tag) (all_elements soup)) = Some v"
    unfolding by_tag_def by (blast dest: first_some_Some)
  then show ?thesis by (rule first_six_char_text_good)
qed

lemma search_bare_good:
  "search_bare cls left s = Some v \<Longrightarrow> length v = 6 \<and> list_all cls v"
proof (induction s arbitrary: left)
  case Nil
  then show ?case by simp
next
  case (Cons c cs)
  show ?case
  proof (cases "bare_at cls left (c # cs)")
    case True
    with Cons.prems have "v = take 6 (c # cs)" by simp
    with True show ?thesis by (simp add: bare_at_def)
  next
    case False
    with Cons.prems have "search_bare cls (Some c) cs = Some v" by simp
    then show ?thesis by (rule Cons.IH)
  qed
qed

lemma keyword_at_good:
  "keyword_at s = Some v \<Longrightarrow> length v = 6 \<and> list_all is_alnum v"
  by (auto simp: keyword_at_def Let_def split: option.splits if_splits)

lemma search_keyword_good:
  "search_keyword s = Some v \<Longrightarrow> length v = 6 \<and> list_all is_alnum v"
proof (induction s)
  case Nil
  then show ?case by simp
next
  case (Cons c cs)
  show ?case
  proof (cases "keyword_at (c # cs)")
    case None
    with Cons.prems have "search_keyword cs = Some v" by simp
    then show ?thesis by (rule Cons.IH)
  next
    case (Some g)
    with Cons.prems have "g = v" by simp
    with Some show ?thesis by (simp add: keyword_at_good)
  qed
qed

lemma digit_alnum: "is_digit c \<Longrightarrow> is_alnum c"
  by (simp add: is_alnum_def)

lemma upper_digit_alnum: "is_upper_digit c \<Longrightarrow> is_alnum c"
  by (auto simp: is_alnum_def is_upper_digit_def)

lemma by_pattern_good:
  assumes "by_pattern plain = Some v"
  shows "length v = 6 \<and> list_all is_alnum v"
proof -
  from assms consider
      "search_keyword plain = Some v"
    | "search_bare is_digit None plain = Some v"
    | "search_bare is_upper_digit None plain = Some v"
    | "search_bare is_alnum None plain = Some v"
    by (auto simp: by_pattern_def split: option.splits)
  then show ?thesis
  proof cases
    case 1
    then show ?thesis by (rule search_keyword_good)
  next
    case 2
    from search_bare_good [OF 2] show ?thesis
      by (auto simp: list_all_iff digit_alnum)
  next
    case 3
    from search_bare_good [OF 3] show ?thesis
      by (auto simp: list_all_iff upper_digit_alnum)
  next
    case 4
    then show ?thesis by (rule search_bare_good)
  qed
qed

lemma demo_strong: "extract_code_from_html demo_parse strong_body = Ok (Some ''AB12C9'')"
  by code_simp

lemma demo_plain: "extract_code_from_html demo_parse plain_body = Ok (Some ''482913'')"
  by code_simp

lemma demo_class: "extract_code_from_html demo_parse class_body = Ok (Some ''77aa99'')"
  by code_simp

text \<open>
  Claim C9. Every value other than \<open>None\<close> that \<open>_extract_code_from_html\<close> returns, from
  whichever of its three methods, is a string of exactly 6 characters, each of them an ASCII
  letter or digit.
\<close>

theorem extracted_code_is_six_alnum:
  assumes "extract_code_from_html parse content = Ok (Some v)"
  shows "length v = 6 \<and> list_all is_alnum v"
proof -
  from assms obtain soup where
    "by_class soup = Some v \<or> by_tag soup = Some v \<or> by_pattern (soup_get_text soup) = Some v"
    by (auto simp: extract_code_from_html_def split: if_splits io.splits option.splits)
  then show ?thesis
    using by_class_good by_tag_good by_pattern_good by blast
qed

text \<open>
  Witness for C9: one mail body for each of the three methods (a class keyword, an emphasis
  element, a pattern over the plain text).
\<close>

theorem extracted_code_is_six_alnum_witness:
  "extract_code_from_html demo_parse class_body = Ok (Some ''77aa99'') \<and>
   extract_code_from_html demo_parse strong_body = Ok (Some ''AB12C9'') \<and>
   extract_code_from_html demo_parse plain_body = Ok (Some ''482913'') \<and>
   (length ''77aa99'' = 6 \<and> list_all is_alnum ''77aa99'') \<and>
   (length ''AB12C9'' = 6 \<and> list_all is_alnum ''AB12C9'') \<and>
   (length ''482913'' = 6 \<and> list_all is_alnum ''482913'')"
  by (rule conjI [OF demo_class conjI [OF demo_strong conjI [OF demo_plain
        conjI [OF extracted_code_is_six_alnum [OF demo_class]
        conjI [OF extracted_code_is_six_alnum [OF demo_strong]
          extracted_code_is_six_alnum [OF demo_plain]]]]]])


lemma get_text_leaves_out_style:
  "get_text (Element ''td'' None
      [Element ''style'' None [Text Stylesheet ''p {color: red}''],
       Text Comment ''code below'',
       Element ''b'' None [Text NavigableString ''AB12C9'']]) = ''AB12C9''"
  by (simp add: interesting_string_types_def)

lemma strong_text_six: "match_six ''AB12C9''"
  by code_simp

lemma plain_keyword: "search_keyword ''your code is 482913 valid 10 min'' = None"
  by code_simp

lemma plain_digits: "search_bare is_digit None ''your code is 482913 valid 10 min'' = Some ''482913''"
  by code_simp

lemma plain_by_pattern: "by_pattern ''your code is 482913 valid 10 min'' = Some ''482913''"
  by code_simp

lemma plain_soup_no_elements:
  "by_class [Text cls t] = None" "by_tag [Text cls t] = None"
  by (simp_all add: by_class_def by_tag_def all_elements_def class_patterns_def emphasis_tags_def)

text \<open>
  Claim C7. The extraction is a function of the parsed body, and its methods are tried in a
  fixed order. (1) Let the body parse to a tree in which no element picked by a class keyword
  has a six-character text, and in which the first \<open>strong\<close> element with a six-character
  text has the text \<open>AB12C9\<close>, whatever else surrounds it: the result is exactly \<open>AB12C9\<close>.
  (2) For the plain text \<open>your code is 482913 valid 10 min\<close>, which parses to a single text
  node, the result is \<open>482913\<close>; the keyword pattern does not match that text and the pattern
  of six bare digits does.
\<close>

theorem extraction_follows_priority:
  "(content \<noteq> [] \<and> parse content = Ok soup \<and>
    (\<forall>e \<in> set (all_elements soup). \<forall>pat \<in> set class_patterns.
        class_matches pat e \<longrightarrow> \<not> match_six (py_strip (get_text e))) \<and>
    all_elements soup = earlier @ el # later \<and>
    tag_name el = ''strong'' \<and> py_strip (get_text el) = ''AB12C9'' \<and>
    (\<forall>e \<in> set earlier. tag_name e = ''strong'' \<longrightarrow> \<not> match_six (py_strip (get_text e)))
    \<longrightarrow> extract_code_from_html parse content = Ok (Some ''AB12C9'')) \<and>
   (parse ''your code is 482913 valid 10 min'' = Ok [Text NavigableString ''your code is 482913 valid 10 min'']
    \<longrightarrow> extract_code_from_html parse ''your code is 482913 valid 10 min'' = Ok (Some ''482913'')
        \<and> search_keyword ''your code is 482913 valid 10 min'' = None
        \<and> search_bare is_digit None ''your code is 482913 valid 10 min'' = Some ''482913'')"
proof (intro conjI impI)
  assume a: "content \<noteq> [] \<and> parse content = Ok soup \<and>
    (\<forall>e \<in> set (all_elements soup). \<forall>pat \<in> set class_patterns.
        class_matches pat e \<longrightarrow> \<not> match_six (py_strip (get_text e))) \<and>
    all_elements soup = earlier @ el # later \<and>
    tag_name el = ''strong'' \<and> py_strip (get_text el) = ''AB12C9'' \<and>
    (\<forall>e \<in> set earlier. tag_name e = ''strong'' \<longrightarrow> \<not> match_six (py_strip (get_text e)))"
  from a have ne: "content \<noteq> []" and pa: "parse content = Ok soup"
    and nc: "\<forall>e \<in> set (all_elements soup). \<forall>pat \<in> set class_patterns.
        class_matches pat e \<longrightarrow> \<not> match_six (py_strip (get_text e))"
    and sp: "all_elements soup = earlier @ el # later"
    and tg: "tag_name el = ''strong''" and tx: "py_strip (get_text el) = ''AB12C9''"
    and ea: "\<forall>e \<in> set earlier. tag_name e = ''strong'' \<longrightarrow> \<not> match_six (py_strip (get_text e))"
    by simp_all
  have "\<And>pat. pat \<in> set class_patterns \<Longrightarrow>
          first_some six_char_text (filter (class_matches pat) (all_elements soup)) = None"
    using nc by - (rule first_some_None, auto simp: six_char_text_def)
  then have no_class: "by_class soup = None"
    unfolding by_class_def by (rule first_some_None)
  have here: "six_char_text el = Some ''AB12C9''"
    using tx by (simp add: six_char_text_def strong_text_six Let_def)
  have split: "filter (\<lambda>e. tag_name e = ''strong'') (all_elements soup) =
                 filter (\<lambda>e. tag_name e = ''strong'') earlier
                 @ el # filter (\<lambda>e. tag_name e = ''strong'') later"
    using sp tg by simp
  have "first_some six_char_text (filter (\<lambda>e. tag_name e = ''strong'') (all_elements soup)) =
          first_some six_char_text (el # filter (\<lambda>e. tag_name e = ''strong'') later)"
    unfolding split using ea by - (rule first_some_skip, auto simp: six_char_text_def)
  with here have "first_some six_char_text (filter (\<lambda>e. tag_name e = ''strong'') (all_elements soup))
                    = Some ''AB12C9''"
    by simp
  then have "by_tag soup = Some ''AB12C9''"
    by (simp add: by_tag_def emphasis_tags_def)
  with no_class ne pa show "extract_code_from_html parse content = Ok (Some ''AB12C9'')"
    by (simp add: extract_code_from_html_def)
next
  assume "parse ''your code is 482913 valid 10 min'' = Ok [Text NavigableString ''your code is 482913 valid 10 min'']"
  then show "extract_code_from_html parse ''your code is 482913 valid 10 min'' = Ok (Some ''482913'')"
    by (simp add: extract_code_from_html_def plain_soup_no_elements plain_by_pattern
        soup_get_text_def)
next
  show "search_keyword ''your code is 482913 valid 10 min'' = None"
    by (rule plain_keyword)
next
  show "search_bare is_digit None ''your code is 482913 valid 10 min'' = Some ''482913''"
    by (rule plain_digits)
qed

lemma strong_soup_elements:
  "all_elements strong_soup =
     [Element ''p'' None [Text NavigableString ''Hello, your code: 123 '']]
     @ Element ''strong'' None [Text NavigableString ''AB12C9'']
     # [Element ''p'' None [Text NavigableString ''bye 2024'']]"
  by (simp add: all_elements_def strong_soup_def)

text \<open>
  Witness for C7: the emphasised code between two paragraphs of other text, and the plain
  text of the claim.
\<close>

theorem extraction_follows_priority_witness:
  "strong_body \<noteq> [] \<and> demo_parse strong_body = Ok strong_soup \<and>
   tag_name (Element ''strong'' None [Text NavigableString ''AB12C9'']) = ''strong'' \<and>
   py_strip (get_text (Element ''strong'' None [Text NavigableString ''AB12C9''])) = ''AB12C9'' \<and>
   extract_code_from_html demo_parse strong_body = Ok (Some ''AB12C9'') \<and>
   demo_parse ''your code is 482913 valid 10 min'' = Ok [Text NavigableString ''your code is 482913 valid 10 min''] \<and>
   extract_code_from_html demo_parse ''your code is 482913 valid 10 min'' = Ok (Some ''482913'')"
proof -
  have ne: "strong_body \<noteq> []"
    by (simp add: strong_body_def)
  have pa: "demo_parse strong_body = Ok strong_soup"
    by (simp add: demo_parse_def)
  have nc: "\<forall>e \<in> set (all_elements strong_soup). \<forall>pat \<in> set class_patterns.
        class_matches pat e \<longrightarrow> \<not> match_six (py_strip (get_text e))"
    by (simp add: strong_soup_elements class_matches_def)
  have tg: "tag_name (Element ''strong'' None [Text NavigableString ''AB12C9'']) = ''strong''"
    by simp
  have tx: "py_strip (get_text (Element ''strong'' None [Text NavigableString ''AB12C9''])) = ''AB12C9''"
    by code_simp
  have el: "\<forall>e \<in> set [Element ''p'' None [Text NavigableString ''Hello, your code: 123 '']].
              tag_name e = ''strong'' \<longrightarrow> \<not> match_six (py_strip (get_text e))"
    by simp
  have pp: "demo_parse ''your code is 482913 valid 10 min'' = Ok [Text NavigableString ''your code is 482913 valid 10 min'']"
    by (simp add: demo_parse_def plain_body_def strong_body_def)
  note inst = extraction_follows_priority
    [of strong_body demo_parse strong_soup "[Element ''p'' None [Text NavigableString ''Hello, your code: 123 '']]"
       "Element ''strong'' None [Text NavigableString ''AB12C9'']" "[Element ''p'' None [Text NavigableString ''bye 2024'']]"]
  have r1: "extract_code_from_html demo_parse strong_body = Ok (Some ''AB12C9'')"
    using inst [THEN conjunct1] ne pa nc strong_soup_elements tg tx el by blast
  have r2: "extract_code_from_html demo_parse ''your code is 482913 valid 10 min'' = Ok (Some ''482913'')"
    using inst [THEN conjunct2] pp by blast
  show ?thesis
    by (rule conjI [OF ne conjI [OF pa conjI [OF tg conjI [OF tx conjI [OF r1 conjI [OF pp r2]]]]]])
qed

section \<open>Properties of the inbox poller\<close>

lemma feed_step_baseline:
  assumes "newest_id r = Some old" and "old \<noteq> []"
  shows "feed_step parse (Some old) (feed_response r) = Baseline_again"
  using assms
  by (auto simp: newest_id_def feed_step_def truthy_def
      split: response.splits if_splits list.splits)

lemma poll_rounds_skip_stale:
  assumes "\<forall>r \<in> set stale. newest_id r = Some old" and "old \<noteq> []"
  shows "poll_rounds parse google_mail address (Some old) (stale @ later) =
           poll_rounds parse google_mail address (Some old) later"
  using assms(1)
proof (induction stale)
  case Nil
  then show ?case by simp
next
  case (Cons r stale)
  then have "newest_id r = Some old" by simp
  from feed_step_baseline [OF this assms(2)] Cons show ?case by simp
qed

lemma stale_round_newest: "newest_id stale_round = Some ''m1''"
  by (simp add: newest_id_def stale_round_def mail_m1_def)

lemma demo_poll_fresh:
  "get_verification_code demo_parse (Some ''noreply@example.com'') ''a@b.c'' (Some ''m1'') Failed
     [fresh_round] = Some ''482913''"
  by code_simp

lemma demo_poll_other_baseline:
  "get_verification_code demo_parse (Some ''noreply@example.com'') ''a@b.c'' (Some ''m0'') Failed
     [stale_round, stale_round] = Some ''77aa99''"
  by code_simp

text \<open>
  As long as the inbox feed answers with \<open>m1\<close> on top, the turn is passed over: neither
  polling path is consulted for a code, and the result is the result of the turns that follow.
\<close>

lemma answered_stale_turns_are_skipped:
  assumes "\<forall>r \<in> set stale. newest_id r = Some ''m1''"
  shows "get_verification_code parse google_mail address (Some ''m1'') baseline (stale @ later) =
           get_verification_code parse google_mail address (Some ''m1'') baseline later \<and>
         get_verification_code parse google_mail address (Some ''m1'') baseline stale = None"
proof -
  have ne: "''m1'' \<noteq> []" by simp
  have a: "poll_rounds parse google_mail address (Some ''m1'') (stale @ later) =
             poll_rounds parse google_mail address (Some ''m1'') later"
    by (rule poll_rounds_skip_stale [OF assms ne])
  have "poll_rounds parse google_mail address (Some ''m1'') (stale @ []) =
          poll_rounds parse google_mail address (Some ''m1'') []"
    by (rule poll_rounds_skip_stale [OF assms ne])
  then have b: "poll_rounds parse google_mail address (Some ''m1'') stale = None"
    by simp
  from a b show ?thesis
    by (simp add: get_verification_code_def)
qed

lemma stale_turns_example:
  "get_verification_code demo_parse (Some ''noreply@example.com'') ''a@b.c'' (Some ''m1'') Failed
     [stale_round, stale_round] = None \<and>
   get_verification_code demo_parse (Some ''noreply@example.com'') ''a@b.c'' (Some ''m1'') Failed
     ([stale_round, stale_round] @ [fresh_round]) = Some ''482913''"
proof -
  have s: "\<forall>r \<in> set [stale_round, stale_round]. newest_id r = Some ''m1''"
    by (simp add: stale_round_newest)
  note inst = answered_stale_turns_are_skipped
    [OF s, of demo_parse "Some ''noreply@example.com''" "''a@b.c''" Failed "[fresh_round]"]
  have a: "get_verification_code demo_parse (Some ''noreply@example.com'') ''a@b.c'' (Some ''m1'')
             Failed [stale_round, stale_round] = None"
    by (rule inst [THEN conjunct2])
  have b: "get_verification_code demo_parse (Some ''noreply@example.com'') ''a@b.c'' (Some ''m1'')
             Failed ([stale_round, stale_round] @ [fresh_round]) = Some ''482913''"
    using inst [THEN conjunct1] demo_poll_fresh by (rule trans)
  show ?thesis
    by (rule conjI [OF a b])
qed

text \<open>
  Claim C6 fails on the code. The inbox holds only the baseline message \<open>m1\<close>, whose body
  carries the code \<open>77aa99\<close>; the caller passes \<open>old_email_id = "m1"\<close>. In the first and third
  turn the inbox feed answers with \<open>m1\<close> on top; in the second turn the request to the inbox
  feed fails, and the administrative feed lists the same old message with its extracted code.
  The first \<open>try\<close> block compares the newest identifier with \<open>old_email_id\<close>; the second
  \<open>try\<close> block has no such test, so the second turn returns the code of the baseline message
  although no new message has arrived.
\<close>

theorem baseline_code_returned_by_admin_path:
  "newest_id unchanged_round = Some ''m1'' \<and>
   feed_response feed_down_round = Failed \<and>
   newest_id feed_down_round = None \<and>
   admin_response feed_down_round = admin_response unchanged_round \<and>
   extract_code_from_html demo_parse (message_content mail_m1) = Ok (Some ''77aa99'') \<and>
   get_verification_code demo_parse (Some ''noreply@example.com'') ''a@b.c'' (Some ''m1'') Failed
     [unchanged_round] = None \<and>
   get_verification_code demo_parse (Some ''noreply@example.com'') ''a@b.c'' (Some ''m1'') Failed
     [unchanged_round, feed_down_round, unchanged_round] = Some ''77aa99''"
proof -
  have a: "newest_id unchanged_round = Some ''m1''"
    by (simp add: newest_id_def unchanged_round_def mail_m1_def)
  have b: "feed_response feed_down_round = Failed"
    by (simp add: feed_down_round_def)
  have c: "newest_id feed_down_round = None"
    by (simp add: newest_id_def feed_down_round_def)
  have d: "admin_response feed_down_round = admin_response unchanged_round"
    by (simp add: feed_down_round_def unchanged_round_def)
  have e: "extract_code_from_html demo_parse (message_content mail_m1) = Ok (Some ''77aa99'')"
    by code_simp
  have f: "get_verification_code demo_parse (Some ''noreply@example.com'') ''a@b.c'' (Some ''m1'')
             Failed [unchanged_round] = None"
    by code_simp
  have g: "get_verification_code demo_parse (Some ''noreply@example.com'') ''a@b.c'' (Some ''m1'')
             Failed [unchanged_round, feed_down_round, unchanged_round] = Some ''77aa99''"
    by code_simp
  show ?thesis
    by (rule conjI [OF a conjI [OF b conjI [OF c conjI [OF d conjI [OF e conjI [OF f g]]]]]])
qed

end
